theory Spec2Isabelle
  imports Main
begin

section \<open>PDF DPI converter: a model of \<^verbatim>\<open>server.js\<close>\<close>

text \<open>
  The service stages uploaded PDF files, writes a PostScript directive, runs Ghostscript
  once per file and serves the outputs. The model below follows \<^verbatim>\<open>server.js\<close>:
  the file system is a map from resolved paths to nodes, every effect is recorded in a
  trace of events, promises that reject are results \<open>Inl message\<close>, and the shell
  that runs a command line, the random source, the working directory of the process and the
  directory of the script are parameters of the environment. Output to the console is left
  out. Permissions are left out: a write fails only when its path is a directory, and a
  regular file can always be unlinked.
\<close>

subsection \<open>JavaScript strings and numbers\<close>

text \<open>
  A JavaScript string is a \<open>string\<close> of code units below 256. A JavaScript number is
  an \<open>int\<close> here, and \<open>NaN\<close> is \<open>None\<close>: the program only tests a parsed number for
  being zero and compares it with 72 and 2400, which the rounding of a double does not change,
  and it only prints numbers between 72 and 2400.
\<close>

definition digit_char :: "nat \<Rightarrow> char" where
  "digit_char d = ''0123456789abcdef'' ! d"

fun nat_digits :: "nat \<Rightarrow> string" where
  "nat_digits n = (if n < 10 then [digit_char n] else nat_digits (n div 10) @ [digit_char (n mod 10)])"

declare nat_digits.simps [simp del]

text \<open>The text of a template substitution \<^verbatim>\<open>${n}\<close> for an integral number.\<close>

definition js_number_string :: "int \<Rightarrow> string" where
  "js_number_string n = (if n < 0 then ''-'' @ nat_digits (nat (- n)) else nat_digits (nat n))"

text \<open>\<^verbatim>\<open>buf.toString("hex")\<close>: two lower-case hexadecimal digits per byte.\<close>

definition hex_byte :: "nat \<Rightarrow> string" where
  "hex_byte b = [digit_char (b div 16), digit_char (b mod 16)]"

definition toString_hex :: "nat list \<Rightarrow> string" where
  "toString_hex buf = concat (map hex_byte buf)"

text \<open>
  \<^verbatim>\<open>parseInt(s)\<close> with no radix: leading white space is skipped, one sign is read, a
  prefix \<^verbatim>\<open>0x\<close> selects radix 16, and the longest prefix of digits is the value;
  no digit at all gives \<open>NaN\<close>.
\<close>

definition js_whitespace :: "char \<Rightarrow> bool" where
  "js_whitespace c = (of_char c \<in> {9, 10, 11, 12, 13, 32, 160 :: nat})"

definition digit_value :: "nat \<Rightarrow> char \<Rightarrow> nat option" where
  "digit_value radix c =
     (let n = (of_char c :: nat);
          v = (if 48 \<le> n \<and> n \<le> 57 then Some (n - 48)
               else if 97 \<le> n \<and> n \<le> 122 then Some (n - 87)
               else if 65 \<le> n \<and> n \<le> 90 then Some (n - 55)
               else None)
      in case v of None \<Rightarrow> None | Some d \<Rightarrow> if d < radix then Some d else None)"

fun parse_digits :: "nat \<Rightarrow> nat option \<Rightarrow> string \<Rightarrow> nat option" where
  "parse_digits radix acc [] = acc"
| "parse_digits radix acc (c # cs) =
     (case digit_value radix c of
        None \<Rightarrow> acc
      | Some d \<Rightarrow> parse_digits radix (Some (radix * (case acc of None \<Rightarrow> 0 | Some a \<Rightarrow> a) + d)) cs)"

definition js_parseInt :: "string \<Rightarrow> int option" where
  "js_parseInt inputString =
     (let S = dropWhile js_whitespace inputString;
          sign = (if take 1 S = ''-'' then - 1 else 1 :: int);
          S1 = (if take 1 S = ''+'' \<or> take 1 S = ''-'' then drop 1 S else S);
          hex = (take 2 S1 = ''0x'' \<or> take 2 S1 = ''0X'');
          R = (if hex then 16 else 10);
          S2 = (if hex then drop 2 S1 else S1)
      in map_option (\<lambda>mathInt. sign * int mathInt) (parse_digits R None S2))"

text \<open>Splitting a text at white space, as the shell and the PostScript scanner do.\<close>

definition is_space :: "char \<Rightarrow> bool" where
  "is_space c = (c = CHR '' '' \<or> c = CHR 0x0A \<or> c = CHR 0x09 \<or> c = CHR 0x0D)"

fun split_words :: "string \<Rightarrow> string \<Rightarrow> string list" where
  "split_words w [] = (if w = [] then [] else [w])"
| "split_words w (c # cs) =
     (if is_space c then (if w = [] then [] else [w]) @ split_words [] cs
      else split_words (w @ [c]) cs)"

definition ws_words :: "string \<Rightarrow> string list" where
  "ws_words s = split_words [] s"

text \<open>The value following a key in a list of words, and the value of an option \<open>key=value\<close>.\<close>

fun value_after :: "string \<Rightarrow> string list \<Rightarrow> string option" where
  "value_after key [] = None"
| "value_after key [w] = None"
| "value_after key (w # v # ws) = (if w = key then Some v else value_after key (v # ws))"

definition option_value :: "string \<Rightarrow> string list \<Rightarrow> string option" where
  "option_value key ws =
     (case filter (\<lambda>w. take (length key) w = key) ws of
        [] \<Rightarrow> None
      | w # _ \<Rightarrow> Some (drop (length key) w))"

subsection \<open>Paths\<close>

text \<open>
  \<^verbatim>\<open>path.join\<close>, \<^verbatim>\<open>path.normalize\<close> and \<^verbatim>\<open>path.extname\<close> of Node on POSIX.
\<close>

fun split_on :: "char \<Rightarrow> string \<Rightarrow> string list" where
  "split_on c [] = [[]]"
| "split_on c (x # xs) =
     (if x = c then [] # split_on c xs
      else (case split_on c xs of [] \<Rightarrow> [[x]] | s # ss \<Rightarrow> (x # s) # ss))"

fun join_with :: "string \<Rightarrow> string list \<Rightarrow> string" where
  "join_with sep [] = []"
| "join_with sep [s] = s"
| "join_with sep (s # t # ss) = s @ sep @ join_with sep (t # ss)"

definition norm_step :: "bool \<Rightarrow> string list \<Rightarrow> string \<Rightarrow> string list" where
  "norm_step allowAboveRoot res seg =
     (if seg = [] \<or> seg = ''.'' then res
      else if seg = ''..'' then
        (if res \<noteq> [] \<and> last res \<noteq> ''..'' then butlast res
         else if allowAboveRoot then res @ [''..''] else res)
      else res @ [seg])"

definition normalizeString :: "string \<Rightarrow> bool \<Rightarrow> string" where
  "normalizeString p allowAboveRoot =
     join_with ''/'' (foldl (norm_step allowAboveRoot) [] (split_on CHR ''/'' p))"

definition isAbsolute :: "string \<Rightarrow> bool" where
  "isAbsolute p = (take 1 p = ''/'')"

definition path_normalize :: "string \<Rightarrow> string" where
  "path_normalize p =
     (if p = [] then ''.''
      else let trailingSeparator = (last p = CHR ''/'');
               q = normalizeString p (\<not> isAbsolute p)
           in if q = [] then (if isAbsolute p then ''/'' else if trailingSeparator then ''./'' else ''.'')
              else (if isAbsolute p then ''/'' else []) @ q @ (if trailingSeparator then ''/'' else []))"

definition path_join :: "string list \<Rightarrow> string" where
  "path_join args =
     (let joined = join_with ''/'' (filter (\<lambda>a. a \<noteq> []) args)
      in if joined = [] then ''.'' else path_normalize joined)"

definition last_dot :: "string \<Rightarrow> nat option" where
  "last_dot b = (if CHR ''.'' \<in> set b then Some (length b - 1 - length (takeWhile (\<lambda>c. c \<noteq> CHR ''.'') (rev b))) else None)"

definition extname :: "string \<Rightarrow> string" where
  "extname p =
     (let segs = filter (\<lambda>s. s \<noteq> []) (split_on CHR ''/'' p);
          base = (if segs = [] then [] else last segs)
      in case last_dot base of
           None \<Rightarrow> []
         | Some i \<Rightarrow> if i = 0 \<or> base = ''..'' then [] else drop i base)"

text \<open>
  The operating system resolves a relative path against the working directory of the
  process; a resolved path is its list of segments from the root.
\<close>

definition resolve_segments :: "string \<Rightarrow> string list" where
  "resolve_segments p = foldl (norm_step False) [] (split_on CHR ''/'' p)"

definition abs_segments :: "string \<Rightarrow> string \<Rightarrow> string list" where
  "abs_segments wd p = resolve_segments (if isAbsolute p then p else wd @ ''/'' @ p)"

text \<open>A segment that normalisation leaves alone, and a path directly under \<^verbatim>\<open>uploads/\<close>.\<close>

definition plain_segment :: "string \<Rightarrow> bool" where
  "plain_segment s = (s \<noteq> [] \<and> s \<noteq> ''.'' \<and> s \<noteq> ''..'' \<and> CHR ''/'' \<notin> set s)"

definition is_staged_path :: "string \<Rightarrow> bool" where
  "is_staged_path p = (take 8 p = ''uploads/'' \<and> plain_segment (drop 8 p))"

subsection \<open>The world: file system, trace of effects, random source, shell\<close>

datatype node = File string | Dir

type_synonym fsys = "string list \<rightharpoonup> node"

datatype event =
    Stored string string string
  | WriteFile string string
  | Unlink string
  | Spawn string
  | Produced string string

record world =
  fs :: fsys
  trace :: "event list"
  draws :: nat

text \<open>
  What running a command line does is the parameter \<open>shell\<close>: from the text of the command
  and the file system before, the error that \<^verbatim>\<open>exec\<close> reports (a non-zero exit or a
  spawn failure) and the file system after. Nothing restricts the files that a command
  changes.
\<close>

record env =
  cwd :: string
  dirname :: string
  entropy :: "nat \<Rightarrow> nat \<Rightarrow> nat"
  shell :: "string \<Rightarrow> fsys \<Rightarrow> string option \<times> fsys"

definition is_file :: "fsys \<Rightarrow> string list \<Rightarrow> bool" where
  "is_file f k = (case f k of Some (File _) \<Rightarrow> True | _ \<Rightarrow> False)"

definition new_events :: "world \<Rightarrow> world \<Rightarrow> event list" where
  "new_events w w' = drop (length (trace w)) (trace w')"

fun spawned :: "event list \<Rightarrow> string list" where
  "spawned [] = []"
| "spawned (Spawn c # es) = c # spawned es"
| "spawned (_ # es) = spawned es"

fun written_paths :: "event list \<Rightarrow> string list" where
  "written_paths [] = []"
| "written_paths (WriteFile p _ # es) = p # written_paths es"
| "written_paths (_ # es) = written_paths es"

fun stored_types :: "event list \<Rightarrow> string list" where
  "stored_types [] = []"
| "stored_types (Stored _ _ t # es) = t # stored_types es"
| "stored_types (_ # es) = stored_types es"

fun last_produced :: "string \<Rightarrow> event list \<Rightarrow> string option" where
  "last_produced p [] = None"
| "last_produced p (Produced q b # es) =
     (case last_produced p es of Some b' \<Rightarrow> Some b' | None \<Rightarrow> if q = p then Some b else None)"
| "last_produced p (_ # es) = last_produced p es"

text \<open>\<^verbatim>\<open>crypto.randomBytes(n)\<close>: the next draw of the random source, \<open>n\<close> bytes.\<close>

definition randomBytes :: "env \<Rightarrow> nat \<Rightarrow> world \<Rightarrow> nat list \<times> world" where
  "randomBytes e n w = (map (\<lambda>i. entropy e (draws w) i mod 256) [0..<n], w\<lparr>draws := draws w + 1\<rparr>)"

text \<open>\<^verbatim>\<open>fs.writeFile\<close>, \<^verbatim>\<open>fs.unlink\<close> and \<^verbatim>\<open>fs.access\<close>; a rejection is \<open>Inl message\<close>.\<close>

definition fs_writeFile :: "env \<Rightarrow> string \<Rightarrow> string \<Rightarrow> world \<Rightarrow> (string + unit) \<times> world" where
  "fs_writeFile e p content w =
     (let k = abs_segments (cwd e) p;
          w1 = w\<lparr>trace := trace w @ [WriteFile p content]\<rparr>
      in case fs w k of
           Some Dir \<Rightarrow> (Inl (''EISDIR: illegal operation on a directory, open '' @ p), w1)
         | _ \<Rightarrow> (Inr (), w1\<lparr>fs := (fs w)(k \<mapsto> File content)\<rparr>))"

definition fs_unlink :: "env \<Rightarrow> string \<Rightarrow> world \<Rightarrow> (string + unit) \<times> world" where
  "fs_unlink e p w =
     (let k = abs_segments (cwd e) p;
          w1 = w\<lparr>trace := trace w @ [Unlink p]\<rparr>
      in case fs w k of
           Some (File _) \<Rightarrow> (Inr (), w1\<lparr>fs := (fs w)(k := None)\<rparr>)
         | Some Dir \<Rightarrow> (Inl (''EISDIR: illegal operation on a directory, unlink '' @ p), w1)
         | None \<Rightarrow> (Inl (''ENOENT: no such file or directory, unlink '' @ p), w1))"

definition fs_access :: "env \<Rightarrow> string \<Rightarrow> world \<Rightarrow> string + unit" where
  "fs_access e p w =
     (case fs w (abs_segments (cwd e) p) of
        None \<Rightarrow> Inl (''ENOENT: no such file or directory, access '' @ p)
      | Some (File _) \<Rightarrow>
          if p \<noteq> [] \<and> last p = CHR ''/''
          then Inl (''ENOTDIR: not a directory, access '' @ p)
          else Inr ()
      | Some Dir \<Rightarrow> Inr ())"

text \<open>
  \<^verbatim>\<open>exec(command, callback)\<close> hands the command line to \<^verbatim>\<open>/bin/sh\<close>, which runs it in
  the working directory of the server. The paths stand in the command line between double
  quotes and are not escaped, so the shell expands what they contain: the file system after
  the command is whatever the shell leaves, at every path. The trace records the spawn and,
  as an observation for the properties below, the regular file that is at the output path
  when the command has ended.
\<close>

definition exec_gs :: "env \<Rightarrow> string \<Rightarrow> string \<Rightarrow> world \<Rightarrow> string option \<times> world" where
  "exec_gs e command outputPath w =
     (let (error, fs') = shell e command (fs w);
          w1 = w\<lparr>fs := fs', trace := trace w @ [Spawn command]\<rparr>
      in case fs' (abs_segments (cwd e) outputPath) of
           Some (File bytes) \<Rightarrow> (error, w1\<lparr>trace := trace w1 @ [Produced outputPath bytes]\<rparr>)
         | _ \<Rightarrow> (error, w1))"

subsection \<open>The directive and the command (\<^verbatim>\<open>setPdfDPI\<close>)\<close>

definition template_lines :: "string list \<Rightarrow> string" where
  "template_lines ls = join_with [CHR 0x0A] ls"

definition psContent :: "int \<Rightarrow> string" where
  "psContent targetDPI = template_lines
    [
      '''',
      ''            << /EndPage {'',
      ''                2 dict begin'',
      ''                /pdfmark where {pop} {userdict /pdfmark /cleartomark load put} ifelse'',
      ''                ['',
      ''                    /Title (Set DPI)'',
      ''                    /Author (PDF Processor)'',
      ''                    /Creator (PDF DPI Setter)'',
      ''                    /Producer (Ghostscript)'',
      ''                    /ModDate (D:20240214)'',
      ''                    /CreationDate (D:20240214)'',
      ''                    /Subject (DPI Modified PDF)'',
      ''                    /Keywords (DPI, PDF)'',
      ''                    /ViewerPreferences <<'',
      ''                        /DisplayDocTitle true'',
      ''                        /HideToolbar false'',
      ''                        /HideMenubar false'',
      ''                        /HideWindowUI false'',
      ''                        /FitWindow false'',
      ''                        /CenterWindow false'',
      ''                        /ShowPrintDialog true'',
      ''                    >>'',
      ''                    /SetDistillerParams <<'',
      ''                        /AutoRotatePages /None'',
      ''                        /ColorImageDownsampleType /None'',
      ''                        /GrayImageDownsampleType /None'',
      ''                        /MonoImageDownsampleType /None'',
      ''                        /ColorImageResolution '' @ js_number_string targetDPI,
      ''                        /GrayImageResolution '' @ js_number_string targetDPI,
      ''                        /MonoImageResolution '' @ js_number_string targetDPI,
      ''                        /DownsampleColorImages false'',
      ''                        /DownsampleGrayImages false'',
      ''                        /DownsampleMonoImages false'',
      ''                        /AutoFilterColorImages false'',
      ''                        /AutoFilterGrayImages false'',
      ''                        /ColorImageFilter /FlateEncode'',
      ''                        /GrayImageFilter /FlateEncode'',
      ''                        /MonoImageFilter /CCITTFaxEncode'',
      ''                        /ColorConversionStrategy /LeaveColorUnchanged'',
      ''                        /PreserveOverprintSettings true'',
      ''                        /UCRandBGInfo /Preserve'',
      ''                        /ParseDSCComments true'',
      ''                        /PreserveCopyPage true'',
      ''                        /CannotEmbedFontPolicy /Warning'',
      ''                    >>'',
      ''                    /DOCINFO pdfmark'',
      ''                } stopped cleartomark'',
      ''                end'',
      ''                true'',
      ''            } bind>> setpagedevice''
    ]"

definition dquote :: string where
  "dquote = [CHR 0x22]"

definition indent :: string where
  "indent = ''                    ''"

text \<open>A backslash at the end of a line of the template continues the line: it adds nothing.\<close>

definition gs_command :: "string \<Rightarrow> string \<Rightarrow> string \<Rightarrow> int \<Rightarrow> string" where
  "gs_command psFile inputPath outputPath targetDPI = concat
    [ ''gs '',
      indent @ ''-sDEVICE=pdfwrite '',
      indent @ ''-dNOPAUSE '',
      indent @ ''-dBATCH '',
      indent @ ''-dQUIET '',
      indent @ ''-dPDFSETTINGS=/prepress '',
      indent @ ''-dCompatibilityLevel=1.4 '',
      indent @ ''-dDEVICEXRESOLUTION='' @ js_number_string targetDPI @ '' '',
      indent @ ''-dDEVICEYRESOLUTION='' @ js_number_string targetDPI @ '' '',
      indent @ ''-dFIXEDMEDIA '',
      indent @ ''-dPDFX '',
      indent @ ''-dUseCIEColor '',
      indent @ ''-f '' @ dquote @ psFile @ dquote @ '' '',
      indent @ ''-f '' @ dquote @ inputPath @ dquote @ '' '',
      indent @ ''-sOutputFile='' @ dquote @ outputPath @ dquote ]"

definition psFile :: string where
  "psFile = path_join [''uploads'', ''setdpi.ps'']"

definition setPdfDPI :: "env \<Rightarrow> string \<Rightarrow> string \<Rightarrow> int \<Rightarrow> world \<Rightarrow> (string + unit) \<times> world" where
  "setPdfDPI e inputPath outputPath targetDPI w =
     (case fs_writeFile e psFile (psContent targetDPI) w of
        (Inl message, w1) \<Rightarrow> (Inl (''Failed to create PostScript file: '' @ message), w1)
      | (Inr _, w1) \<Rightarrow>
          (let command = gs_command psFile inputPath outputPath targetDPI;
               (error, w2) = exec_gs e command outputPath w1;
               w3 = snd (fs_unlink e psFile w2)
           in case error of
                Some message \<Rightarrow> (Inl (''Failed to set PDF DPI: '' @ message), w3)
              | None \<Rightarrow> (Inr (), w3)))"

subsection \<open>Upload intake (\<^verbatim>\<open>multer\<close> with the storage and filter of the program)\<close>

record file_info =
  originalname :: string
  mimetype :: string

record upload_file = file_info +
  path :: string

text \<open>The \<^verbatim>\<open>fileFilter\<close> callback: an error, or whether the file is accepted.\<close>

definition fileFilter :: "file_info \<Rightarrow> string + bool" where
  "fileFilter file =
     (if mimetype file \<noteq> ''application/pdf'' then Inl ''Only PDF files are allowed''
      else Inr True)"

text \<open>The \<^verbatim>\<open>filename\<close> callback of the disk storage, given the random buffer.\<close>

definition storage_filename :: "nat list \<Rightarrow> file_info \<Rightarrow> string" where
  "storage_filename buf file = toString_hex buf @ extname (originalname file)"

definition destination :: string where
  "destination = ''uploads/''"

definition fileSize_limit :: nat where
  "fileSize_limit = 50 * 1024 * 1024"

text \<open>
  The middleware \<^verbatim>\<open>upload.array("files")\<close> is library code. It takes the file parts of
  the request in order: a part is filtered, then named and written under the destination;
  on an error of the filter or a part over the size limit it removes the files it has
  written for this request and passes the error on, and the route handler does not run.
  A part over the limit leaves nothing on the disk.
\<close>

definition remove_uploaded :: "env \<Rightarrow> upload_file list \<Rightarrow> world \<Rightarrow> world" where
  "remove_uploaded e fls w = foldl (\<lambda>w' f. snd (fs_unlink e (path f) w')) w fls"

fun upload_array :: "env \<Rightarrow> (file_info \<times> string) list \<Rightarrow> upload_file list \<Rightarrow> world
    \<Rightarrow> (string + upload_file list) \<times> world" where
  "upload_array e [] uploaded w = (Inr uploaded, w)"
| "upload_array e ((file, content) # rest) uploaded w =
     (case fileFilter file of
        Inl message \<Rightarrow> (Inl message, remove_uploaded e uploaded w)
      | Inr accepted \<Rightarrow>
          if \<not> accepted then upload_array e rest uploaded w
          else
            (let (buf, w1) = randomBytes e 16 w;
                 p = path_join [destination, storage_filename buf file]
             in if length content > fileSize_limit
                then (Inl ''File too large'', remove_uploaded e uploaded w1)
                else upload_array e rest
                       (uploaded @ [\<lparr>originalname = originalname file, mimetype = mimetype file, path = p\<rparr>])
                       (w1\<lparr>fs := (fs w1)(abs_segments (cwd e) p \<mapsto> File content),
                          trace := trace w1 @ [Stored p (originalname file) (mimetype file)]\<rparr>)))"

subsection \<open>Responses\<close>

record conversion_result =
  originalName :: string
  name :: string
  url :: string
  dpi :: int

datatype body =
    FilesProcessed string "conversion_result list"
  | ErrorBody string
  | ErrorDetails string string
  | Download string
  | UnhandledError string

datatype response = Response nat body

subsection \<open>\<^verbatim>\<open>POST /convert\<close>\<close>

record request =
  files :: "upload_file list"
  body_dpi :: "string option"

text \<open>
  \<^verbatim>\<open>parseInt(req.body.dpi) || 300\<close>: a missing field is \<^verbatim>\<open>undefined\<close>, which parses to
  \<open>NaN\<close>; \<open>NaN\<close> and zero are falsy.
\<close>

definition dpi_field_number :: "string option \<Rightarrow> int option" where
  "dpi_field_number field = (case field of None \<Rightarrow> None | Some s \<Rightarrow> js_parseInt s)"

definition targetDPI_of :: "string option \<Rightarrow> int" where
  "targetDPI_of field =
     (case dpi_field_number field of
        None \<Rightarrow> 300
      | Some n \<Rightarrow> if n = 0 then 300 else n)"


text \<open>
  One turn of the loop over \<^verbatim>\<open>req.files\<close>: the \<^verbatim>\<open>try\<close> block and its
  \<^verbatim>\<open>finally\<close>, which unlinks the staged file and swallows the error of the unlink.
\<close>

definition convert_file :: "env \<Rightarrow> int \<Rightarrow> upload_file \<Rightarrow> world \<Rightarrow> (string + conversion_result) \<times> world" where
  "convert_file e targetDPI file w =
     (let (buf, w1) = randomBytes e 16 w;
          outputFileName = toString_hex buf @ ''.pdf'';
          outputPath = path_join [''output'', outputFileName];
          (r, w2) = setPdfDPI e (path file) outputPath targetDPI w1;
          w3 = snd (fs_unlink e (path file) w2)
      in case r of
           Inl message \<Rightarrow> (Inl message, w3)
         | Inr _ \<Rightarrow>
             (Inr \<lparr>originalName = originalname file, name = outputFileName,
                   url = ''/output/'' @ outputFileName, dpi = targetDPI\<rparr>, w3))"

fun convert_files :: "env \<Rightarrow> int \<Rightarrow> upload_file list \<Rightarrow> conversion_result list \<Rightarrow> world
    \<Rightarrow> (string + conversion_result list) \<times> world" where
  "convert_files e targetDPI [] results w = (Inr results, w)"
| "convert_files e targetDPI (file # rest) results w =
     (case convert_file e targetDPI file w of
        (Inl message, w') \<Rightarrow> (Inl message, w')
      | (Inr r, w') \<Rightarrow> convert_files e targetDPI rest (results @ [r]) w')"

definition convert_handler :: "env \<Rightarrow> request \<Rightarrow> world \<Rightarrow> response \<times> world" where
  "convert_handler e req w =
     (if files req = [] then (Response 400 (ErrorBody ''No files uploaded''), w)
      else
        (let targetDPI = targetDPI_of (body_dpi req)
         in if targetDPI < 72 \<or> targetDPI > 2400
            then (Response 400 (ErrorBody ''DPI must be between 72 and 2400''), w)
            else
              (case convert_files e targetDPI (files req) [] w of
                 (Inr results, w') \<Rightarrow>
                   (Response 200 (FilesProcessed ''Files processed successfully'' results), w')
               | (Inl message, w') \<Rightarrow>
                   (Response 500 (ErrorDetails ''Internal Server Error'' message), w'))))"

text \<open>
  The route: the middleware first, and the handler on what it staged. An error of the
  middleware goes to the default error handler of the framework, which answers 500.
\<close>

record multipart =
  file_parts :: "(file_info \<times> string) list"
  dpi_field :: "string option"

definition post_convert :: "env \<Rightarrow> multipart \<Rightarrow> world \<Rightarrow> response \<times> world" where
  "post_convert e m w =
     (case upload_array e (file_parts m) [] w of
        (Inl message, w') \<Rightarrow> (Response 500 (UnhandledError message), w')
      | (Inr staged, w') \<Rightarrow> convert_handler e \<lparr>files = staged, body_dpi = dpi_field m\<rparr> w')"

subsection \<open>\<^verbatim>\<open>GET /output/:filename\<close>\<close>

text \<open>
  \<^verbatim>\<open>res.download(filePath)\<close> is library code, called here with no options and no
  callback. It resolves the path and sends the bytes of a regular file. A path whose last
  segment begins with a dot is ignored, and a directory is passed over: both end in the
  framework's own answer 404, as does a file that has gone since the access check.
\<close>

definition res_download :: "env \<Rightarrow> string \<Rightarrow> world \<Rightarrow> response" where
  "res_download e p w =
     (let fullPath = abs_segments (cwd e) p
      in if fullPath \<noteq> [] \<and> take 1 (last fullPath) = ''.''
         then Response 404 (UnhandledError ''Not Found'')
         else (case fs w fullPath of
                 Some (File bytes) \<Rightarrow> Response 200 (Download bytes)
               | _ \<Rightarrow> Response 404 (UnhandledError ''Not Found'')))"

definition get_output :: "env \<Rightarrow> string \<Rightarrow> world \<Rightarrow> response" where
  "get_output e filename w =
     (let filePath = path_join [dirname e, ''output'', filename]
      in case fs_access e filePath w of
           Inl _ \<Rightarrow> Response 404 (ErrorBody ''File not found'')
         | Inr _ \<Rightarrow> res_download e filePath w)"

subsection \<open>Concrete inputs\<close>

text \<open>
  Two shells for the concrete runs, each started in a working directory \<open>wd\<close>. The first
  runs a Ghostscript that succeeds: it leaves a file at the path that the command gives
  between the quotes of \<^verbatim>\<open>-sOutputFile=\<close>. The second is the first, except on a command
  line that contains \<^verbatim>\<open>$(rm -rf output)\<close>: the shell performs this command substitution
  before it starts Ghostscript, which removes everything under \<^verbatim>\<open>output\<close>, and
  Ghostscript then fails, since neither its input nor the directory of its output exists.
\<close>

fun starts_with :: "string \<Rightarrow> string \<Rightarrow> bool" where
  "starts_with [] s = True"
| "starts_with (a # as) [] = False"
| "starts_with (a # as) (c # cs) = (a = c \<and> starts_with as cs)"

fun has_infix :: "string \<Rightarrow> string \<Rightarrow> bool" where
  "has_infix sub [] = (sub = [])"
| "has_infix sub (c # cs) = (starts_with sub (c # cs) \<or> has_infix sub cs)"

definition gs_output_path :: "string \<Rightarrow> string option" where
  "gs_output_path command =
     map_option (filter (\<lambda>c. c \<noteq> CHR 0x22)) (option_value ''-sOutputFile='' (ws_words command))"

definition sample_shell :: "string \<Rightarrow> string \<Rightarrow> fsys \<Rightarrow> string option \<times> fsys" where
  "sample_shell wd command f =
     (case gs_output_path command of
        None \<Rightarrow> (Some ''Command failed'', f)
      | Some p \<Rightarrow> (None, f(abs_segments wd p \<mapsto> File ''%PDF-1.4 converted'')))"

definition under_output :: "string \<Rightarrow> string list \<Rightarrow> bool" where
  "under_output wd k = (take (Suc (length (resolve_segments wd))) k = resolve_segments wd @ [''output''])"

definition injected_shell :: "string \<Rightarrow> string \<Rightarrow> fsys \<Rightarrow> string option \<times> fsys" where
  "injected_shell wd command f =
     (if has_infix ''$(rm -rf output)'' command
      then (Some ''Command failed'', (\<lambda>k. if under_output wd k then None else f k))
      else sample_shell wd command f)"

text \<open>
  A server started in its own directory \<^verbatim>\<open>/srv/app\<close>, with the shell that succeeds
  and a random source whose \<open>n\<close>-th draw is the bytes \<open>16 n, 16 n + 1, \<dots>\<close>;
  an empty disk, and a disk that holds three staged uploads.
\<close>

definition sample_env :: env where
  "sample_env = \<lparr>cwd = ''/srv/app'', dirname = ''/srv/app'',
                  entropy = (\<lambda>n i. 16 * n + i), shell = sample_shell ''/srv/app''\<rparr>"

definition empty_world :: world where
  "empty_world = \<lparr>fs = Map.empty, trace = [], draws = 0\<rparr>"

definition sample_pdf :: "file_info \<times> string" where
  "sample_pdf = (\<lparr>originalname = ''a.pdf'', mimetype = ''application/pdf''\<rparr>, ''%PDF-1.4 original'')"

definition sample_png :: "file_info \<times> string" where
  "sample_png = (\<lparr>originalname = ''b.png'', mimetype = ''image/png''\<rparr>, ''PNG'')"

definition sample_staged :: upload_file where
  "sample_staged = \<lparr>originalname = ''a.pdf'', mimetype = ''application/pdf'',
                     path = ''uploads/a0a1a2a3a4a5a6a7a8a9aaabacadaeaf.pdf''\<rparr>"

definition sample_staged2 :: upload_file where
  "sample_staged2 = \<lparr>originalname = ''b.pdf'', mimetype = ''application/pdf'',
                      path = ''uploads/b0b1b2b3b4b5b6b7b8b9babbbcbdbebf.pdf''\<rparr>"

definition sample_staged3 :: upload_file where
  "sample_staged3 = \<lparr>originalname = ''c.pdf'', mimetype = ''application/pdf'',
                      path = ''uploads/c0c1c2c3c4c5c6c7c8c9cacbcccdcecf.pdf''\<rparr>"

definition sample_world :: world where
  "sample_world =
     \<lparr>fs = map_of
        [([''srv'', ''app'', ''uploads'', ''a0a1a2a3a4a5a6a7a8a9aaabacadaeaf.pdf''], File ''%PDF-1.4 a''),
         ([''srv'', ''app'', ''uploads'', ''b0b1b2b3b4b5b6b7b8b9babbbcbdbebf.pdf''], File ''%PDF-1.4 b''),
         ([''srv'', ''app'', ''uploads'', ''c0c1c2c3c4c5c6c7c8c9cacbcccdcecf.pdf''], File ''%PDF-1.4 c'')],
      trace = [], draws = 0\<rparr>"

text \<open>
  The same server with the shell that performs the command substitution, and an upload
  whose name carries one after its extension.
\<close>

definition injected_env :: env where
  "injected_env = \<lparr>cwd = ''/srv/app'', dirname = ''/srv/app'',
                    entropy = (\<lambda>n i. 16 * n + i), shell = injected_shell ''/srv/app''\<rparr>"

definition injected_pdf :: "file_info \<times> string" where
  "injected_pdf = (\<lparr>originalname = ''b.pdf$(rm -rf output)'', mimetype = ''application/pdf''\<rparr>,
                   ''%PDF-1.4 second'')"

text \<open>
  The same server started from \<^verbatim>\<open>/srv\<close>, as \<^verbatim>\<open>node app/server.js\<close>, with one
  staged upload under \<^verbatim>\<open>/srv/uploads\<close>.
\<close>

definition other_cwd_env :: env where
  "other_cwd_env = \<lparr>cwd = ''/srv'', dirname = ''/srv/app'',
                     entropy = (\<lambda>n i. 16 * n + i), shell = sample_shell ''/srv''\<rparr>"

definition other_cwd_world :: world where
  "other_cwd_world =
     \<lparr>fs = map_of
        [([''srv'', ''uploads'', ''a0a1a2a3a4a5a6a7a8a9aaabacadaeaf.pdf''], File ''%PDF-1.4 a'')],
      trace = [], draws = 0\<rparr>"

section \<open>Properties\<close>

subsection \<open>Numbers and words\<close>

lemma digit_char_dec: "d < 10 \<Longrightarrow> digit_char d \<in> set ''0123456789''"
proof -
  assume "d < 10"
  then have "d \<in> {0,1,2,3,4,5,6,7,8,9}" by auto
  then show ?thesis by (auto simp: digit_char_def)
qed

lemma digit_char_hex: "d < 16 \<Longrightarrow> digit_char d \<in> set ''0123456789abcdef''"
  unfolding digit_char_def by (rule nth_mem) simp

lemma digit_value_digit_char: "d < 10 \<Longrightarrow> digit_value 10 (digit_char d) = Some d"
proof -
  assume "d < 10"
  then have "d \<in> {0,1,2,3,4,5,6,7,8,9}" by auto
  then show ?thesis by (auto simp: digit_char_def digit_value_def)
qed

lemma nat_digits_set: "set (nat_digits n) \<subseteq> set ''0123456789''"
proof (induction n rule: nat_digits.induct)
  case (1 n)
  show ?case
  proof (cases "n < 10")
    case True
    then show ?thesis using digit_char_dec [of n] by (subst nat_digits.simps) simp
  next
    case False
    have "n mod 10 < 10" by simp
    then have "digit_char (n mod 10) \<in> set ''0123456789''" by (rule digit_char_dec)
    with False "1.IH" show ?thesis by (subst nat_digits.simps) simp
  qed
qed

lemma nat_digits_nonempty: "nat_digits n \<noteq> []"
  by (subst nat_digits.simps) simp

lemma parse_digits_snoc:
  "\<forall>c\<in>set xs. digit_value r c \<noteq> None \<Longrightarrow>
   parse_digits r acc (xs @ [c]) =
     (case digit_value r c of
        None \<Rightarrow> parse_digits r acc xs
      | Some d \<Rightarrow> Some (r * (case parse_digits r acc xs of None \<Rightarrow> 0 | Some a \<Rightarrow> a) + d))"
  by (induction xs arbitrary: acc) (auto split: option.splits)

lemma digit_value_dec: "c \<in> set ''0123456789'' \<Longrightarrow> digit_value 10 c \<noteq> None"
  by (auto simp: digit_value_def)

lemma parse_nat_digits: "parse_digits 10 None (nat_digits n) = Some n"
proof (induction n rule: nat_digits.induct)
  case (1 n)
  show ?case
  proof (cases "n < 10")
    case True
    then show ?thesis by (subst nat_digits.simps) (simp add: digit_value_digit_char)
  next
    case False
    have all: "\<forall>c\<in>set (nat_digits (n div 10)). digit_value 10 c \<noteq> None"
      using nat_digits_set [of "n div 10"] digit_value_dec by blast
    have "nat_digits n = nat_digits (n div 10) @ [digit_char (n mod 10)]"
      using False by (subst nat_digits.simps) simp
    then show ?thesis
      using False "1.IH" by (simp add: parse_digits_snoc [OF all] digit_value_digit_char)
  qed
qed

lemma dec_not_ws: "c \<in> set ''0123456789'' \<Longrightarrow> \<not> js_whitespace c"
  by (auto simp: js_whitespace_def)

lemma dec_not_x: "c \<in> set ''0123456789'' \<Longrightarrow> c \<noteq> CHR ''x'' \<and> c \<noteq> CHR ''X'' \<and> c \<noteq> CHR ''-'' \<and> c \<noteq> CHR ''+''"
  by auto

lemma nat_digits_cases:
  obtains c where "nat_digits n = [c]" "c \<in> set ''0123456789''"
  | c d ds where "nat_digits n = c # d # ds" "c \<in> set ''0123456789''" "d \<in> set ''0123456789''"
proof (cases "nat_digits n")
  case Nil
  then show ?thesis using nat_digits_nonempty by blast
next
  case (Cons c cs)
  show ?thesis
  proof (cases cs)
    case Nil
    with Cons that(1) nat_digits_set [of n] show ?thesis by auto
  next
    case (Cons d ds)
    with \<open>nat_digits n = c # cs\<close> that(2) nat_digits_set [of n] show ?thesis by auto
  qed
qed

lemma parseInt_nat_digits: "js_parseInt (nat_digits n) = Some (int n)"
proof (cases n rule: nat_digits_cases)
  case (1 c)
  then show ?thesis
    using parse_nat_digits [of n] dec_not_ws [of c] dec_not_x [of c]
    by (simp add: js_parseInt_def)
next
  case (2 c d ds)
  then show ?thesis
    using parse_nat_digits [of n] dec_not_ws [of c] dec_not_x [of c] dec_not_x [of d]
    by (simp add: js_parseInt_def)
qed

lemma parseInt_minus_nat_digits: "js_parseInt (''-'' @ nat_digits n) = Some (- int n)"
proof (cases n rule: nat_digits_cases)
  case (1 c)
  then show ?thesis
    using parse_nat_digits [of n] dec_not_x [of c]
    by (simp add: js_parseInt_def js_whitespace_def)
next
  case (2 c d ds)
  then show ?thesis
    using parse_nat_digits [of n] dec_not_x [of c] dec_not_x [of d]
    by (simp add: js_parseInt_def js_whitespace_def)
qed

lemma parseInt_number_string: "js_parseInt (js_number_string n) = Some n"
proof (cases "n < 0")
  case True
  then show ?thesis
    using parseInt_minus_nat_digits [of "nat (- n)"] by (simp add: js_number_string_def)
next
  case False
  then show ?thesis
    using parseInt_nat_digits [of "nat n"] by (simp add: js_number_string_def)
qed

lemma split_words_nospace:
  "\<forall>c\<in>set xs. \<not> is_space c \<Longrightarrow> split_words w (xs @ ys) = split_words (w @ xs) ys"
  by (induction xs arbitrary: w) auto

lemma split_words_space:
  "is_space c \<Longrightarrow> split_words w (xs @ c # ys) = split_words w xs @ split_words [] ys"
  by (induction xs arbitrary: w) auto

lemma ws_words_space: "is_space c \<Longrightarrow> ws_words (xs @ c # ys) = ws_words xs @ ws_words ys"
  by (simp add: ws_words_def split_words_space)

lemma ws_words_word: "w \<noteq> [] \<Longrightarrow> \<forall>c\<in>set w. \<not> is_space c \<Longrightarrow> ws_words w = [w]"
  using split_words_nospace [of w "[]" "[]"] by (simp add: ws_words_def)

lemma ws_words_template_lines: "ws_words (template_lines ls) = concat (map ws_words ls)"
proof (induction ls)
  case Nil
  show ?case by (simp add: template_lines_def ws_words_def)
next
  case (Cons s ls)
  show ?case
  proof (cases ls)
    case Nil
    then show ?thesis by (simp add: template_lines_def)
  next
    case (Cons t ss)
    have "is_space (CHR 0x0A)" by (simp add: is_space_def)
    then have "ws_words (s @ CHR 0x0A # join_with [CHR 0x0A] (t # ss))
        = ws_words s @ ws_words (join_with [CHR 0x0A] (t # ss))"
      by (rule ws_words_space)
    with Cons Cons.IH show ?thesis by (simp add: template_lines_def)
  qed
qed

lemma dec_not_space: "c \<in> set ''0123456789'' \<Longrightarrow> \<not> is_space c"
  by (auto simp: is_space_def)

lemma number_string_word:
  "js_number_string n \<noteq> [] \<and> (\<forall>c\<in>set (js_number_string n). \<not> is_space c)"
  using nat_digits_set dec_not_space nat_digits_nonempty
  by (auto simp: js_number_string_def is_space_def)

lemma split_words_number: "split_words [] (js_number_string n) = [js_number_string n]"
  using number_string_word [of n] ws_words_word [of "js_number_string n"] by (simp add: ws_words_def)

lemma psContent_words:
  "ws_words (psContent targetDPI) =
     (let n = js_number_string targetDPI in
     [''<<'', ''/EndPage'', ''{'', ''2'', ''dict'', ''begin'', ''/pdfmark'', ''where'', 
      ''{pop}'', ''{userdict'', ''/pdfmark'', ''/cleartomark'', ''load'', ''put}'', 
      ''ifelse'', ''['', ''/Title'', ''(Set'', ''DPI)'', ''/Author'', ''(PDF'', 
      ''Processor)'', ''/Creator'', ''(PDF'', ''DPI'', ''Setter)'', ''/Producer'', 
      ''(Ghostscript)'', ''/ModDate'', ''(D:20240214)'', ''/CreationDate'', ''(D:20240214)'', 
      ''/Subject'', ''(DPI'', ''Modified'', ''PDF)'', ''/Keywords'', ''(DPI,'', ''PDF)'', 
      ''/ViewerPreferences'', ''<<'', ''/DisplayDocTitle'', ''true'', ''/HideToolbar'', 
      ''false'', ''/HideMenubar'', ''false'', ''/HideWindowUI'', ''false'', ''/FitWindow'', 
      ''false'', ''/CenterWindow'', ''false'', ''/ShowPrintDialog'', ''true'', ''>>'', 
      ''/SetDistillerParams'', ''<<'', ''/AutoRotatePages'', ''/None'', 
      ''/ColorImageDownsampleType'', ''/None'', ''/GrayImageDownsampleType'', ''/None'', 
      ''/MonoImageDownsampleType'', ''/None'', ''/ColorImageResolution'', n, 
      ''/GrayImageResolution'', n, ''/MonoImageResolution'', n, ''/DownsampleColorImages'', 
      ''false'', ''/DownsampleGrayImages'', ''false'', ''/DownsampleMonoImages'', ''false'', 
      ''/AutoFilterColorImages'', ''false'', ''/AutoFilterGrayImages'', ''false'', 
      ''/ColorImageFilter'', ''/FlateEncode'', ''/GrayImageFilter'', ''/FlateEncode'', 
      ''/MonoImageFilter'', ''/CCITTFaxEncode'', ''/ColorConversionStrategy'', 
      ''/LeaveColorUnchanged'', ''/PreserveOverprintSettings'', ''true'', ''/UCRandBGInfo'', 
      ''/Preserve'', ''/ParseDSCComments'', ''true'', ''/PreserveCopyPage'', ''true'', 
      ''/CannotEmbedFontPolicy'', ''/Warning'', ''>>'', ''/DOCINFO'', ''pdfmark'', ''}'', 
      ''stopped'', ''cleartomark'', ''end'', ''true'', ''}'', ''bind>>'', ''setpagedevice''])"
  by (simp only: psContent_def ws_words_template_lines)
     (simp add: ws_words_def is_space_def split_words_number Let_def)

lemma number_string_not_slash [simp]: "js_number_string n \<noteq> CHR ''/'' # s"
proof
  assume "js_number_string n = CHR ''/'' # s"
  then have "CHR ''/'' \<in> set (js_number_string n)" by simp
  then show False
    using nat_digits_set by (auto simp: js_number_string_def split: if_splits)
qed

lemma split_words_number_app:
  "split_words w (js_number_string n @ ys) = split_words (w @ js_number_string n) ys"
  using number_string_word [of n] by (simp add: split_words_nospace)

lemma gs_command_words:
  "ws_words (gs_command ps inp out targetDPI) =
     [''gs'', ''-sDEVICE=pdfwrite'', ''-dNOPAUSE'', ''-dBATCH'', ''-dQUIET'',
      ''-dPDFSETTINGS=/prepress'', ''-dCompatibilityLevel=1.4'',
      ''-dDEVICEXRESOLUTION='' @ js_number_string targetDPI,
      ''-dDEVICEYRESOLUTION='' @ js_number_string targetDPI,
      ''-dFIXEDMEDIA'', ''-dPDFX'', ''-dUseCIEColor'']
     @ ws_words (''-f '' @ dquote @ ps @ dquote @ '' '' @ indent @ ''-f '' @ dquote @ inp
          @ dquote @ '' '' @ indent @ ''-sOutputFile='' @ dquote @ out @ dquote)"
  by (simp add: gs_command_def indent_def ws_words_def is_space_def split_words_number_app)

subsection \<open>Paths\<close>

lemma split_on_nonempty: "split_on c s \<noteq> []"
  by (induction s) (auto split: list.splits)

lemma split_on_nosep: "c \<notin> set s \<Longrightarrow> split_on c s = [s]"
  by (induction s) auto

lemma split_on_append: "split_on c (a @ c # b) = split_on c a @ split_on c b"
proof (induction a)
  case Nil
  show ?case by simp
next
  case (Cons x a)
  then show ?case
    using split_on_nonempty [of c a] by (cases "split_on c a") auto
qed

lemma split_on_sepfree: "s \<in> set (split_on c x) \<Longrightarrow> c \<notin> set s"
proof (induction x arbitrary: s)
  case Nil
  then show ?case by simp
next
  case (Cons y x)
  show ?case
  proof (cases "y = c")
    case True
    with Cons show ?thesis by auto
  next
    case False
    obtain t ts where sp: "split_on c x = t # ts"
      using split_on_nonempty [of c x] by (cases "split_on c x") auto
    with False Cons.prems have "s = y # t \<or> s \<in> set ts" by auto
    then show ?thesis
    proof
      assume "s = y # t"
      moreover have "c \<notin> set t" using Cons.IH [of t] sp by simp
      ultimately show ?thesis using False by auto
    next
      assume "s \<in> set ts"
      then show ?thesis using Cons.IH [of s] sp by simp
    qed
  qed
qed

lemma split_on_join:
  "segs \<noteq> [] \<Longrightarrow> \<forall>s\<in>set segs. CHR ''/'' \<notin> set s \<Longrightarrow>
   split_on CHR ''/'' (join_with ''/'' segs) = segs"
proof (induction "''/''" segs rule: join_with.induct)
  case 1
  then show ?case by simp
next
  case (2 s)
  then show ?case by (simp add: split_on_nosep)
next
  case (3 s t ss)
  have "split_on CHR ''/'' (s @ CHR ''/'' # join_with ''/'' (t # ss))
      = split_on CHR ''/'' s @ split_on CHR ''/'' (join_with ''/'' (t # ss))"
    by (rule split_on_append)
  with 3 show ?case by (simp add: split_on_nosep)
qed

lemma join_with_nonempty: "segs \<noteq> [] \<Longrightarrow> \<forall>s\<in>set segs. s \<noteq> [] \<Longrightarrow> join_with sep segs \<noteq> []"
  by (induction sep segs rule: join_with.induct) auto

lemma plain_last: "plain_segment n \<Longrightarrow> last n \<noteq> CHR ''/''"
  by (metis last_in_set plain_segment_def)

lemma norm_step_plain: "plain_segment s \<Longrightarrow> norm_step a res s = res @ [s]"
  by (auto simp: norm_step_def plain_segment_def)

lemma foldl_norm_step_plain:
  "\<forall>s\<in>set segs. plain_segment s \<Longrightarrow> foldl (norm_step a) res segs = res @ segs"
  by (induction segs arbitrary: res) (simp_all add: norm_step_plain)

lemma norm_step_keeps_plain:
  "\<forall>s\<in>set res. plain_segment s \<Longrightarrow> CHR ''/'' \<notin> set seg \<Longrightarrow>
   \<forall>s\<in>set (norm_step False res seg). plain_segment s"
  by (auto simp: norm_step_def plain_segment_def dest: in_set_butlastD)

lemma foldl_norm_step_keeps_plain:
  "\<forall>s\<in>set res. plain_segment s \<Longrightarrow> \<forall>s\<in>set segs. CHR ''/'' \<notin> set s \<Longrightarrow>
   \<forall>s\<in>set (foldl (norm_step False) res segs). plain_segment s"
proof (induction segs arbitrary: res)
  case Nil
  then show ?case by simp
next
  case (Cons seg segs)
  have "\<forall>s\<in>set (norm_step False res seg). plain_segment s"
    using Cons.prems by (intro norm_step_keeps_plain) auto
  then show ?case using Cons.IH [of "norm_step False res seg"] Cons.prems by simp
qed

lemma resolve_segments_plain: "\<forall>s\<in>set (resolve_segments p). plain_segment s"
  unfolding resolve_segments_def
  by (rule foldl_norm_step_keeps_plain) (auto dest: split_on_sepfree)

lemma resolve_segments_append:
  "resolve_segments (a @ CHR ''/'' # b) = foldl (norm_step False) (resolve_segments a) (split_on CHR ''/'' b)"
  by (simp add: resolve_segments_def split_on_append)

lemma resolve_segments_dir_name:
  "plain_segment d \<Longrightarrow> plain_segment n \<Longrightarrow>
   resolve_segments (a @ CHR ''/'' # d @ CHR ''/'' # n) = resolve_segments a @ [d, n]"
proof -
  assume d: "plain_segment d" and n: "plain_segment n"
  have "split_on CHR ''/'' (d @ CHR ''/'' # n) = [d, n]"
    using d n by (simp add: split_on_append split_on_nosep plain_segment_def)
  then show ?thesis
    using d n by (simp add: resolve_segments_append norm_step_plain)
qed

lemma abs_segments_relative:
  "\<not> isAbsolute (d @ CHR ''/'' # n) \<Longrightarrow> plain_segment d \<Longrightarrow> plain_segment n \<Longrightarrow>
   abs_segments wd (d @ CHR ''/'' # n) = resolve_segments wd @ [d, n]"
  using resolve_segments_dir_name [of d n wd] by (simp add: abs_segments_def)

lemma plain_output [simp]: "plain_segment ''output''"
  by (simp add: plain_segment_def)

lemma plain_uploads [simp]: "plain_segment ''uploads''"
  by (simp add: plain_segment_def)

lemma abs_segments_output:
  "plain_segment n \<Longrightarrow> abs_segments wd (''output/'' @ n) = resolve_segments wd @ [''output'', n]"
  using abs_segments_relative [of "''output''" n wd] by (simp add: isAbsolute_def)

lemma abs_segments_staged:
  "is_staged_path p \<Longrightarrow> abs_segments wd p = resolve_segments wd @ [''uploads'', drop 8 p]"
proof -
  assume st: "is_staged_path p"
  then have p: "p = ''uploads/'' @ drop 8 p"
    by (metis append_take_drop_id is_staged_path_def)
  have "abs_segments wd (''uploads/'' @ drop 8 p) = resolve_segments wd @ [''uploads'', drop 8 p]"
    using abs_segments_relative [of "''uploads''" "drop 8 p" wd] st
    by (simp add: isAbsolute_def is_staged_path_def)
  with p show ?thesis by simp
qed

lemma psFile_eq: "psFile = ''uploads/setdpi.ps''"
  by (simp add: psFile_def path_join_def path_normalize_def normalizeString_def isAbsolute_def
      norm_step_def)

lemma abs_segments_psFile: "abs_segments wd psFile = resolve_segments wd @ [''uploads'', ''setdpi.ps'']"
  using abs_segments_relative [of "''uploads''" "''setdpi.ps''" wd]
  by (simp add: psFile_eq isAbsolute_def plain_segment_def)

lemma path_join_two:
  "plain_segment d \<Longrightarrow> plain_segment n \<Longrightarrow> hd d \<noteq> CHR ''/'' \<Longrightarrow>
   path_join [d, n] = d @ ''/'' @ n"
proof -
  assume d: "plain_segment d" and n: "plain_segment n" and "hd d \<noteq> CHR ''/''"
  have ne: "d \<noteq> []" "n \<noteq> []" using d n by (auto simp: plain_segment_def)
  have rel: "\<not> isAbsolute (d @ CHR ''/'' # n)"
    using d by (cases d) (auto simp: isAbsolute_def plain_segment_def)
  have sp: "split_on CHR ''/'' (d @ CHR ''/'' # n) = [d, n]"
    using d n by (simp add: split_on_append split_on_nosep plain_segment_def)
  have q: "normalizeString (d @ CHR ''/'' # n) True = d @ CHR ''/'' # n"
    using d n by (simp add: normalizeString_def sp norm_step_plain)
  have l: "last (d @ CHR ''/'' # n) \<noteq> CHR ''/''"
    using ne plain_last [OF n] by simp
  show ?thesis
    using ne rel q l by (simp add: path_join_def path_normalize_def)
qed

lemma path_join_output: "plain_segment n \<Longrightarrow> path_join [''output'', n] = ''output/'' @ n"
  using path_join_two [of "''output''" n] by simp

lemma path_join_dirname_output:
  assumes "isAbsolute d" and "plain_segment n"
  shows "abs_segments wd (path_join [d, ''output'', n]) = resolve_segments d @ [''output'', n]"
proof -
  let ?X = "d @ CHR ''/'' # ''output'' @ CHR ''/'' # n"
  let ?segs = "resolve_segments d @ [''output'', n]"
  have dne: "d \<noteq> []" using assms(1) by (auto simp: isAbsolute_def)
  have nne: "n \<noteq> []" using assms(2) by (simp add: plain_segment_def)
  have absX: "isAbsolute ?X" using assms(1) dne by (cases d) (auto simp: isAbsolute_def)
  have joined: "join_with ''/'' (filter (\<lambda>a. a \<noteq> []) [d, ''output'', n]) = ?X"
    using dne nne by simp
  have segs: "foldl (norm_step False) [] (split_on CHR ''/'' ?X) = ?segs"
    using resolve_segments_dir_name [of "''output''" n d] assms(2)
    by (simp add: resolve_segments_def)
  have plain: "\<forall>s\<in>set ?segs. plain_segment s"
    using resolve_segments_plain [of d] assms(2) by auto
  then have nonempty: "\<forall>s\<in>set ?segs. s \<noteq> []" and sepfree: "\<forall>s\<in>set ?segs. CHR ''/'' \<notin> set s"
    by (auto simp: plain_segment_def)
  have q: "normalizeString ?X False = join_with ''/'' ?segs"
    by (simp only: normalizeString_def segs)
  have qne: "join_with ''/'' ?segs \<noteq> []"
    by (rule join_with_nonempty [OF _ nonempty]) simp
  have lastX: "last ?X \<noteq> CHR ''/''"
    using nne plain_last [OF assms(2)] by simp
  have norm: "path_normalize ?X = CHR ''/'' # join_with ''/'' ?segs"
    using absX q qne lastX by (simp add: path_normalize_def)
  have pj: "path_join [d, ''output'', n] = CHR ''/'' # join_with ''/'' ?segs"
    unfolding path_join_def joined using norm by (simp add: Let_def)
  have "resolve_segments (CHR ''/'' # join_with ''/'' ?segs)
      = foldl (norm_step False) [] (split_on CHR ''/'' (join_with ''/'' ?segs))"
    by (simp add: resolve_segments_def norm_step_def)
  also have "\<dots> = foldl (norm_step False) [] ?segs"
    using split_on_join [OF _ sepfree] by simp
  also have "\<dots> = ?segs"
    using foldl_norm_step_plain [OF plain, of False "[]"] by simp
  finally show ?thesis
    by (simp add: pj abs_segments_def isAbsolute_def)
qed

lemma join_with_last:
  "segs \<noteq> [] \<Longrightarrow> last segs \<noteq> [] \<Longrightarrow>
   join_with sep segs \<noteq> [] \<and> last (join_with sep segs) = last (last segs)"
proof (induction segs)
  case Nil
  then show ?case by simp
next
  case (Cons s segs)
  show ?case
  proof (cases segs)
    case Nil
    then show ?thesis using Cons.prems by simp
  next
    case (Cons s' segs')
    then have rest: "segs \<noteq> []" "last segs \<noteq> []" using Cons.prems by simp_all
    from Cons.IH [OF rest] Cons show ?thesis by simp
  qed
qed

lemma path_join_dirname_output_last:
  assumes "isAbsolute d" and "plain_segment n"
  shows "path_join [d, ''output'', n] \<noteq> [] \<and> last (path_join [d, ''output'', n]) \<noteq> CHR ''/''"
proof -
  let ?X = "d @ CHR ''/'' # ''output'' @ CHR ''/'' # n"
  let ?segs = "resolve_segments d @ [''output'', n]"
  have dne: "d \<noteq> []" using assms(1) by (auto simp: isAbsolute_def)
  have nne: "n \<noteq> []" using assms(2) by (simp add: plain_segment_def)
  have absX: "isAbsolute ?X" using assms(1) dne by (cases d) (auto simp: isAbsolute_def)
  have joined: "join_with ''/'' (filter (\<lambda>a. a \<noteq> []) [d, ''output'', n]) = ?X"
    using dne nne by simp
  have segs: "foldl (norm_step False) [] (split_on CHR ''/'' ?X) = ?segs"
    using resolve_segments_dir_name [of "''output''" n d] assms(2)
    by (simp add: resolve_segments_def)
  have plain: "\<forall>s\<in>set ?segs. plain_segment s"
    using resolve_segments_plain [of d] assms(2) by auto
  then have nonempty: "\<forall>s\<in>set ?segs. s \<noteq> []"
    by (auto simp: plain_segment_def)
  have q: "normalizeString ?X False = join_with ''/'' ?segs"
    by (simp only: normalizeString_def segs)
  have qne: "join_with ''/'' ?segs \<noteq> []"
    by (rule join_with_nonempty [OF _ nonempty]) simp
  have lastX: "last ?X \<noteq> CHR ''/''"
    using nne plain_last [OF assms(2)] by simp
  have norm: "path_normalize ?X = CHR ''/'' # join_with ''/'' ?segs"
    using absX q qne lastX by (simp add: path_normalize_def)
  have pj: "path_join [d, ''output'', n] = CHR ''/'' # join_with ''/'' ?segs"
    unfolding path_join_def joined using norm by (simp add: Let_def)
  have "last (join_with ''/'' ?segs) = last (last ?segs)"
    using join_with_last [of ?segs "''/''"] nne by simp
  then have "last (join_with ''/'' ?segs) \<noteq> CHR ''/''"
    using plain_last [OF assms(2)] by simp
  with pj qne show ?thesis by simp
qed

subsection \<open>Tokens\<close>

lemma hex_byte_chars: "b < 256 \<Longrightarrow> set (hex_byte b) \<subseteq> set ''0123456789abcdef''"
proof -
  assume "b < 256"
  then have "b div 16 < 16" and "b mod 16 < 16" by auto
  then show ?thesis
    using digit_char_hex [of "b div 16"] digit_char_hex [of "b mod 16"] by (simp add: hex_byte_def)
qed

lemma toString_hex_length: "length (toString_hex buf) = 2 * length buf"
  by (induction buf) (simp_all add: toString_hex_def hex_byte_def)

lemma toString_hex_chars:
  "\<forall>b\<in>set buf. b < 256 \<Longrightarrow> set (toString_hex buf) \<subseteq> set ''0123456789abcdef''"
  using hex_byte_chars by (induction buf) (auto simp: toString_hex_def)

lemma randomBytes_length: "length (fst (randomBytes e n w)) = n"
  by (simp add: randomBytes_def)

lemma randomBytes_bytes: "\<forall>b\<in>set (fst (randomBytes e n w)). b < 256"
  by (simp add: randomBytes_def)

lemma token_length: "length (toString_hex (fst (randomBytes e 16 w))) = 32"
  by (simp add: toString_hex_length randomBytes_length)

lemma token_chars: "set (toString_hex (fst (randomBytes e 16 w))) \<subseteq> set ''0123456789abcdef''"
  by (rule toString_hex_chars) (rule randomBytes_bytes)

lemma hex_plain:
  assumes "set tok \<subseteq> set ''0123456789abcdef''" and "tok \<noteq> []"
    and "CHR ''/'' \<notin> set ext" and "length tok > 2"
  shows "plain_segment (tok @ ext)"
proof -
  have "CHR ''/'' \<notin> set tok" using assms(1) by auto
  moreover have long: "length (tok @ ext) > 2" using assms(4) by simp
  have "tok @ ext \<noteq> ''.''"
  proof
    assume "tok @ ext = ''.''"
    then have "length (tok @ ext) = 1" by simp
    with long show False by simp
  qed
  moreover have "tok @ ext \<noteq> ''..''"
  proof
    assume "tok @ ext = ''..''"
    then have "length (tok @ ext) = 2" by simp
    with long show False by simp
  qed
  ultimately show ?thesis
    using assms(2,3) by (simp add: plain_segment_def)
qed

lemma token_pdf_plain: "plain_segment (toString_hex (fst (randomBytes e 16 w)) @ ''.pdf'')"
proof (rule hex_plain)
  show "set (toString_hex (fst (randomBytes e 16 w))) \<subseteq> set ''0123456789abcdef''"
    by (rule token_chars)
  show "toString_hex (fst (randomBytes e 16 w)) \<noteq> []"
    using token_length [of e w] by auto
  show "CHR ''/'' \<notin> set ''.pdf''" by simp
  show "2 < length (toString_hex (fst (randomBytes e 16 w)))"
    by (simp add: token_length)
qed

subsection \<open>Effects of the primitive operations\<close>

lemma randomBytes_world:
  "fs (snd (randomBytes e n w)) = fs w \<and> trace (snd (randomBytes e n w)) = trace w
   \<and> draws (snd (randomBytes e n w)) = draws w + 1"
  by (simp add: randomBytes_def)

lemma fs_writeFile_world:
  "fs_writeFile e p c w = (r, w1) \<Longrightarrow>
   trace w1 = trace w @ [WriteFile p c] \<and> draws w1 = draws w
   \<and> (\<forall>k. k \<noteq> abs_segments (cwd e) p \<longrightarrow> fs w1 k = fs w k)
   \<and> (case r of
        Inl _ \<Rightarrow> fs w1 = fs w \<and> fs w (abs_segments (cwd e) p) = Some Dir
      | Inr _ \<Rightarrow> fs w1 (abs_segments (cwd e) p) = Some (File c))"
  by (auto simp: fs_writeFile_def Let_def split: option.splits node.splits)

lemma fs_unlink_world:
  "fs_unlink e p w = (r, w1) \<Longrightarrow>
   trace w1 = trace w @ [Unlink p] \<and> draws w1 = draws w
   \<and> (\<forall>k. k \<noteq> abs_segments (cwd e) p \<longrightarrow> fs w1 k = fs w k)
   \<and> \<not> is_file (fs w1) (abs_segments (cwd e) p)"
  by (auto simp: fs_unlink_def Let_def is_file_def split: option.splits node.splits)

lemma fs_unlink_snd:
  "trace (snd (fs_unlink e p w)) = trace w @ [Unlink p] \<and> draws (snd (fs_unlink e p w)) = draws w
   \<and> (\<forall>k. k \<noteq> abs_segments (cwd e) p \<longrightarrow> fs (snd (fs_unlink e p w)) k = fs w k)
   \<and> \<not> is_file (fs (snd (fs_unlink e p w))) (abs_segments (cwd e) p)"
  using fs_unlink_world [of e p w "fst (fs_unlink e p w)" "snd (fs_unlink e p w)"] by simp

lemma exec_gs_world:
  "exec_gs e c out w = (r, w1) \<Longrightarrow>
   draws w1 = draws w \<and> r = fst (shell e c (fs w)) \<and> fs w1 = snd (shell e c (fs w))
   \<and> trace w1 = trace w @ Spawn c #
        (case snd (shell e c (fs w)) (abs_segments (cwd e) out) of
           Some (File b) \<Rightarrow> [Produced out b]
         | _ \<Rightarrow> [])"
  by (auto simp: exec_gs_def Let_def case_prod_beta split: option.splits node.splits)

subsection \<open>Upload intake\<close>

lemma extname_noslash: "CHR ''/'' \<notin> set (extname p)"
proof -
  let ?segs = "filter (\<lambda>s. s \<noteq> []) (split_on CHR ''/'' p)"
  let ?base = "if ?segs = [] then [] else last ?segs"
  have "CHR ''/'' \<notin> set ?base"
  proof (cases "?segs = []")
    case True
    then show ?thesis by simp
  next
    case False
    then have "last ?segs \<in> set ?segs" by (rule last_in_set)
    then have "last ?segs \<in> set (split_on CHR ''/'' p)" by simp
    then show ?thesis using False split_on_sepfree by auto
  qed
  then show ?thesis
    by (auto simp: extname_def Let_def split: option.splits dest: in_set_dropD)
qed

lemma path_join_destination: "plain_segment n \<Longrightarrow> path_join [destination, n] = ''uploads/'' @ n"
proof -
  assume n: "plain_segment n"
  then have ne: "n \<noteq> []" by (simp add: plain_segment_def)
  let ?X = "''uploads'' @ CHR ''/'' # [] @ CHR ''/'' # n"
  have sp: "split_on CHR ''/'' ?X = [''uploads'', [], n]"
    using n by (simp only: split_on_append) (simp add: split_on_nosep plain_segment_def)
  have q: "normalizeString ?X True = ''uploads/'' @ n"
    using n by (simp only: normalizeString_def sp) (simp add: norm_step_def plain_segment_def)
  have l: "last ?X \<noteq> CHR ''/''" using ne plain_last [OF n] by simp
  have "path_normalize ?X = ''uploads/'' @ n"
    using q l by (simp add: path_normalize_def isAbsolute_def)
  then show ?thesis using ne by (simp add: path_join_def destination_def)
qed

lemma storage_filename_plain: "plain_segment (storage_filename (fst (randomBytes e 16 w)) info)"
  unfolding storage_filename_def
proof (rule hex_plain)
  show "set (toString_hex (fst (randomBytes e 16 w))) \<subseteq> set ''0123456789abcdef''"
    by (rule token_chars)
  show "toString_hex (fst (randomBytes e 16 w)) \<noteq> []"
    using token_length [of e w] by auto
  show "CHR ''/'' \<notin> set (extname (originalname info))" by (rule extname_noslash)
  show "2 < length (toString_hex (fst (randomBytes e 16 w)))"
    by (simp add: token_length)
qed

lemma upload_path_staged:
  "is_staged_path (path_join [destination, storage_filename (fst (randomBytes e 16 w)) info])"
  using storage_filename_plain [of e w info]
  by (simp add: path_join_destination is_staged_path_def)

lemma remove_uploaded_world:
  "\<exists>evs. trace (remove_uploaded e fl w) = trace w @ evs \<and> spawned evs = [] \<and> stored_types evs = []
     \<and> written_paths evs = [] \<and> (\<forall>q. last_produced q evs = None)"
proof (induction fl arbitrary: w)
  case Nil
  show ?case by (simp add: remove_uploaded_def)
next
  case (Cons f fl)
  let ?w1 = "snd (fs_unlink e (path f) w)"
  from Cons [of ?w1] obtain evs where
    "trace (remove_uploaded e fl ?w1) = trace ?w1 @ evs" "spawned evs = []" "stored_types evs = []"
    "written_paths evs = []" "\<forall>q. last_produced q evs = None" by blast
  then show ?case
    using fs_unlink_snd [of e "path f" w]
    by (intro exI [of _ "Unlink (path f) # evs"]) (simp add: remove_uploaded_def)
qed

lemma upload_array_world:
  assumes "upload_array e parts up w = (r, w')"
  shows "\<exists>evs. trace w' = trace w @ evs \<and> spawned evs = [] \<and> written_paths evs = []
     \<and> (\<forall>q. last_produced q evs = None) \<and> set (stored_types evs) \<subseteq> {''application/pdf''}"
  using assms
proof (induction parts arbitrary: up w)
  case Nil
  then show ?case by simp
next
  case (Cons p parts)
  obtain info content where p: "p = (info, content)" by (cases p)
  show ?case
  proof (cases "mimetype info = ''application/pdf''")
    case False
    with Cons.prems have "w' = remove_uploaded e up w" by (simp add: p fileFilter_def)
    with remove_uploaded_world [of e up w] show ?thesis by auto
  next
    case True
    let ?w1 = "snd (randomBytes e 16 w)"
    let ?p = "path_join [destination, storage_filename (fst (randomBytes e 16 w)) info]"
    show ?thesis
    proof (cases "length content > fileSize_limit")
      case big: True
      with True Cons.prems have "w' = remove_uploaded e up ?w1"
        by (simp add: p fileFilter_def case_prod_beta Let_def)
      with remove_uploaded_world [of e up ?w1] randomBytes_world [of e 16 w]
      show ?thesis by auto
    next
      case small: False
      let ?w2 = "?w1\<lparr>fs := (fs ?w1)(abs_segments (cwd e) ?p \<mapsto> File content),
                    trace := trace ?w1 @ [Stored ?p (originalname info) (mimetype info)]\<rparr>"
      let ?up = "up @ [\<lparr>originalname = originalname info, mimetype = mimetype info, path = ?p\<rparr>]"
      have rest: "upload_array e parts ?up ?w2 = (r, w')"
        using True small Cons.prems by (simp add: p fileFilter_def case_prod_beta Let_def)
      from Cons.IH [OF rest] obtain evs where
        "trace w' = trace ?w2 @ evs" "spawned evs = []" "written_paths evs = []"
        "\<forall>q. last_produced q evs = None" "set (stored_types evs) \<subseteq> {''application/pdf''}"
        by blast
      then show ?thesis
        using True randomBytes_world [of e 16 w]
        by (intro exI [of _ "Stored ?p (originalname info) (mimetype info) # evs"]) simp
    qed
  qed
qed

lemma upload_array_rejects:
  assumes "\<exists>p\<in>set parts. mimetype (fst p) \<noteq> ''application/pdf''"
  shows "\<exists>m. fst (upload_array e parts up w) = Inl m"
  using assms
proof (induction parts arbitrary: up w)
  case Nil
  then show ?case by simp
next
  case (Cons p parts)
  obtain info content where p: "p = (info, content)" by (cases p)
  show ?case
  proof (cases "mimetype info = ''application/pdf''")
    case False
    then show ?thesis by (simp add: p fileFilter_def)
  next
    case True
    with Cons.prems p have "\<exists>q\<in>set parts. mimetype (fst q) \<noteq> ''application/pdf''" by auto
    from Cons.IH [OF this] show ?thesis
      using True by (simp add: p fileFilter_def case_prod_beta Let_def)
  qed
qed

lemma upload_array_staged:
  assumes "upload_array e parts up w = (Inr staged, w')" and "\<forall>g\<in>set up. is_staged_path (path g)"
  shows "\<forall>g\<in>set staged. is_staged_path (path g)"
  using assms
proof (induction parts arbitrary: up w)
  case Nil
  then show ?case by simp
next
  case (Cons p parts)
  obtain info content where p: "p = (info, content)" by (cases p)
  let ?w1 = "snd (randomBytes e 16 w)"
  let ?p = "path_join [destination, storage_filename (fst (randomBytes e 16 w)) info]"
  let ?w2 = "?w1\<lparr>fs := (fs ?w1)(abs_segments (cwd e) ?p \<mapsto> File content),
                trace := trace ?w1 @ [Stored ?p (originalname info) (mimetype info)]\<rparr>"
  let ?up = "up @ [\<lparr>originalname = originalname info, mimetype = mimetype info, path = ?p\<rparr>]"
  have ok: "mimetype info = ''application/pdf''" and small: "\<not> length content > fileSize_limit"
    using Cons.prems(1) by (auto simp: p fileFilter_def case_prod_beta Let_def split: if_splits)
  then have rest: "upload_array e parts ?up ?w2 = (Inr staged, w')"
    using Cons.prems(1) by (simp add: p fileFilter_def case_prod_beta Let_def)
  have "\<forall>g\<in>set ?up. is_staged_path (path g)"
    using Cons.prems(2) upload_path_staged [of e w info] by simp
  from Cons.IH [OF rest this] show ?case .
qed

subsection \<open>Traces\<close>

lemma spawned_append: "spawned (xs @ ys) = spawned xs @ spawned ys"
  by (induction xs rule: spawned.induct) simp_all

lemma written_paths_append: "written_paths (xs @ ys) = written_paths xs @ written_paths ys"
  by (induction xs rule: written_paths.induct) simp_all

lemma stored_types_append: "stored_types (xs @ ys) = stored_types xs @ stored_types ys"
  by (induction xs rule: stored_types.induct) simp_all

lemma last_produced_append:
  "last_produced q (xs @ ys) =
     (case last_produced q ys of Some b \<Rightarrow> Some b | None \<Rightarrow> last_produced q xs)"
  by (induction q xs rule: last_produced.induct) (auto split: option.splits)

subsection \<open>One conversion attempt\<close>

lemma setPdfDPI_world:
  assumes run: "setPdfDPI e inp out d w = (r, w')"
  shows "draws w' = draws w
    \<and> (\<exists>evs. trace w' = trace w @ evs \<and> written_paths evs = [psFile] \<and> stored_types evs = []
          \<and> (spawned evs = [] \<or> spawned evs = [gs_command psFile inp out d]))
    \<and> \<not> is_file (fs w') (abs_segments (cwd e) psFile)"
proof -
  let ?pk = "abs_segments (cwd e) psFile"
  let ?cmd = "gs_command psFile inp out d"
  obtain r1 w1 where wf: "fs_writeFile e psFile (psContent d) w = (r1, w1)" by fastforce
  note W = fs_writeFile_world [OF wf]
  show ?thesis
  proof (cases r1)
    case (Inl m)
    with run wf have "w' = w1" by (simp add: setPdfDPI_def)
    with W Inl show ?thesis by (auto simp: is_file_def)
  next
    case (Inr u)
    obtain er w2 where ex: "exec_gs e ?cmd out w1 = (er, w2)" by fastforce
    note X = exec_gs_world [OF ex]
    have w': "w' = snd (fs_unlink e psFile w2)"
      using run wf Inr ex by (auto simp: setPdfDPI_def Let_def split: option.splits)
    note U = fs_unlink_snd [of e psFile w2]
    from X obtain pr where t2: "trace w2 = trace w1 @ Spawn ?cmd # pr"
      and pr: "spawned pr = []" "written_paths pr = []" "stored_types pr = []"
      by (cases "snd (shell e ?cmd (fs w1)) (abs_segments (cwd e) out)")
         (auto split: node.splits)
    let ?evs = "WriteFile psFile (psContent d) # Spawn ?cmd # pr @ [Unlink psFile]"
    have "trace w' = trace w @ ?evs" using w' U W t2 by simp
    moreover have "written_paths ?evs = [psFile]" "stored_types ?evs = []"
      "spawned ?evs = [?cmd]"
      using pr by (simp_all add: written_paths_append stored_types_append spawned_append)
    moreover have "\<not> is_file (fs w') ?pk" and "draws w' = draws w"
      using w' U X W by simp_all
    ultimately show ?thesis by blast
  qed
qed

lemma convert_file_world:
  assumes run: "convert_file e d f w = (r, w')"
  shows "draws w' = draws w + 1
    \<and> (\<exists>evs. trace w' = trace w @ evs \<and> written_paths evs = [psFile] \<and> stored_types evs = []
          \<and> length (spawned evs) \<le> 1
          \<and> (\<forall>c\<in>set (spawned evs). \<exists>out. c = gs_command psFile (path f) out d))
    \<and> \<not> is_file (fs w') (abs_segments (cwd e) (path f))
    \<and> \<not> is_file (fs w') (abs_segments (cwd e) psFile)
    \<and> (case r of
         Inl _ \<Rightarrow> True
       | Inr res \<Rightarrow> res = \<lparr>originalName = originalname f,
                          name = toString_hex (fst (randomBytes e 16 w)) @ ''.pdf'',
                          url = ''/output/'' @ toString_hex (fst (randomBytes e 16 w)) @ ''.pdf'',
                          dpi = d\<rparr>)"
proof -
  let ?tok = "toString_hex (fst (randomBytes e 16 w))"
  let ?out = "path_join [''output'', ?tok @ ''.pdf'']"
  let ?pk = "abs_segments (cwd e) psFile"
  let ?ik = "abs_segments (cwd e) (path f)"
  define w1 where "w1 = snd (randomBytes e 16 w)"
  define r2 where "r2 = fst (setPdfDPI e (path f) ?out d w1)"
  define w2 where "w2 = snd (setPdfDPI e (path f) ?out d w1)"
  have sp: "setPdfDPI e (path f) ?out d w1 = (r2, w2)" by (simp add: r2_def w2_def)
  have R: "fs w1 = fs w \<and> trace w1 = trace w \<and> draws w1 = draws w + 1"
    by (simp add: w1_def randomBytes_def)
  note S = setPdfDPI_world [OF sp]
  have w': "w' = snd (fs_unlink e (path f) w2)"
    using run
    by (auto simp: convert_file_def Let_def case_prod_beta w1_def w2_def split: sum.splits)
  have r: "r = (case r2 of Inl m \<Rightarrow> Inl m
      | Inr _ \<Rightarrow> Inr \<lparr>originalName = originalname f, name = ?tok @ ''.pdf'',
                     url = ''/output/'' @ ?tok @ ''.pdf'', dpi = d\<rparr>)"
    using run
    by (auto simp: convert_file_def Let_def case_prod_beta w1_def r2_def split: sum.splits)
  note U = fs_unlink_snd [of e "path f" w2]
  from S obtain evs where tr: "trace w2 = trace w1 @ evs"
    and wp: "written_paths evs = [psFile]" and st: "stored_types evs = []"
    and spw: "spawned evs = [] \<or> spawned evs = [gs_command psFile (path f) ?out d]"
    by blast
  from S have nops: "\<not> is_file (fs w2) ?pk" and dr: "draws w2 = draws w1"
    by blast+
  let ?evs = "evs @ [Unlink (path f)]"
  have t1: "trace w' = trace w @ ?evs"
    using w' U tr R by simp
  have t2: "written_paths ?evs = [psFile]" "stored_types ?evs = []"
    using wp st by (simp_all add: written_paths_append stored_types_append)
  have t3: "length (spawned ?evs) \<le> 1"
    and t4: "\<forall>c\<in>set (spawned ?evs). \<exists>out. c = gs_command psFile (path f) out d"
    using spw by (auto simp: spawned_append)
  have t6: "\<not> is_file (fs w') ?ik" using w' U by simp
  have t7: "\<not> is_file (fs w') ?pk"
  proof (cases "?pk = ?ik")
    case True
    with t6 show ?thesis by simp
  next
    case False
    with w' U nops show ?thesis by (simp add: is_file_def)
  qed
  have t9: "draws w' = draws w + 1" using w' U dr R by simp
  show ?thesis
    using t1 t2 t3 t4 t6 t7 t9 r by (auto split: sum.splits)
qed

subsection \<open>The loop over the files\<close>

lemma convert_files_append:
  "convert_files e d (xs @ ys) acc w =
     (case convert_files e d xs acc w of
        (Inl m, w1) \<Rightarrow> (Inl m, w1)
      | (Inr rs, w1) \<Rightarrow> convert_files e d ys rs w1)"
  by (induction xs arbitrary: acc w) (auto split: prod.splits sum.splits)

lemma convert_file_result:
  "convert_file e d f w = (Inr res, w') \<Longrightarrow>
   res = \<lparr>originalName = originalname f,
          name = toString_hex (fst (randomBytes e 16 w)) @ ''.pdf'',
          url = ''/output/'' @ toString_hex (fst (randomBytes e 16 w)) @ ''.pdf'',
          dpi = d\<rparr>"
  by (auto simp: convert_file_def Let_def case_prod_beta split: sum.splits)

lemma token_name_shape:
  "length (toString_hex (fst (randomBytes e 16 w)) @ ''.pdf'') = 36
   \<and> set (take 32 (toString_hex (fst (randomBytes e 16 w)) @ ''.pdf'')) \<subseteq> set ''0123456789abcdef''
   \<and> drop 32 (toString_hex (fst (randomBytes e 16 w)) @ ''.pdf'') = ''.pdf''"
  using token_length [of e w] token_chars [of e w] by simp

lemma convert_files_results:
  assumes "convert_files e d fls acc w = (Inr rs, w')"
  shows "\<exists>rs'. rs = acc @ rs' \<and> length rs' = length fls
    \<and> (\<forall>x\<in>set rs'. length (name x) = 36 \<and> set (take 32 (name x)) \<subseteq> set ''0123456789abcdef''
           \<and> drop 32 (name x) = ''.pdf'' \<and> url x = ''/output/'' @ name x \<and> dpi x = d)"
  using assms
proof (induction fls arbitrary: acc w)
  case Nil
  then show ?case by simp
next
  case (Cons f fls)
  obtain r1 w1 where cf: "convert_file e d f w = (r1, w1)" by fastforce
  show ?case
  proof (cases r1)
    case (Inl m)
    with Cons.prems cf show ?thesis by simp
  next
    case (Inr res)
    with Cons.prems cf have rest: "convert_files e d fls (acc @ [res]) w1 = (Inr rs, w')" by simp
    from Cons.IH [OF rest] obtain rs' where rs': "rs = (acc @ [res]) @ rs'"
      and len: "length rs' = length fls"
      and shape: "\<forall>x\<in>set rs'. length (name x) = 36 \<and> set (take 32 (name x)) \<subseteq> set ''0123456789abcdef''
           \<and> drop 32 (name x) = ''.pdf'' \<and> url x = ''/output/'' @ name x \<and> dpi x = d"
      by blast
    have nm: "name res = toString_hex (fst (randomBytes e 16 w)) @ ''.pdf''"
      and ur: "url res = ''/output/'' @ name res" and dp: "dpi res = d"
      using convert_file_result [of e d f w res w1] cf Inr by simp_all
    have "length (name res) = 36 \<and> set (take 32 (name res)) \<subseteq> set ''0123456789abcdef''
           \<and> drop 32 (name res) = ''.pdf''"
      unfolding nm by (rule token_name_shape)
    with ur dp have res: "length (name res) = 36
           \<and> set (take 32 (name res)) \<subseteq> set ''0123456789abcdef''
           \<and> drop 32 (name res) = ''.pdf'' \<and> url res = ''/output/'' @ name res \<and> dpi res = d"
      by blast
    have "rs = acc @ (res # rs')" using rs' by simp
    moreover have "length (res # rs') = length (f # fls)" using len by simp
    moreover have "\<forall>x\<in>set (res # rs'). length (name x) = 36
           \<and> set (take 32 (name x)) \<subseteq> set ''0123456789abcdef''
           \<and> drop 32 (name x) = ''.pdf'' \<and> url x = ''/output/'' @ name x \<and> dpi x = d"
      using res shape by simp
    ultimately show ?thesis by blast
  qed
qed

subsection \<open>Runs on the concrete inputs\<close>

lemma hex_first: "toString_hex (map (\<lambda>i. i mod 256) [0..<16]) = ''000102030405060708090a0b0c0d0e0f''"
  by code_simp

lemma hex_second: "toString_hex (map (\<lambda>i. (16 + i) mod 256) [0..<16]) = ''101112131415161718191a1b1c1d1e1f''"
  by code_simp

lemma hex_third: "toString_hex (map (\<lambda>i. (32 + i) mod 256) [0..<16]) = ''202122232425262728292a2b2c2d2e2f''"
  by code_simp

lemma hex_fourth: "toString_hex (map (\<lambda>i. (48 + i) mod 256) [0..<16]) = ''303132333435363738393a3b3c3d3e3f''"
  by code_simp

lemma sample_token_first:
  "draws w = 0 \<Longrightarrow> entropy e = (\<lambda>n i. 16 * n + i) \<Longrightarrow>
   toString_hex (fst (randomBytes e 16 w)) = ''000102030405060708090a0b0c0d0e0f''"
  using hex_first by (simp add: randomBytes_def)

lemma sample_token_second:
  "draws w = 1 \<Longrightarrow> entropy e = (\<lambda>n i. 16 * n + i) \<Longrightarrow>
   toString_hex (fst (randomBytes e 16 w)) = ''101112131415161718191a1b1c1d1e1f''"
  using hex_second by (simp add: randomBytes_def)

lemma sample_token_third:
  "draws w = 2 \<Longrightarrow> entropy e = (\<lambda>n i. 16 * n + i) \<Longrightarrow>
   toString_hex (fst (randomBytes e 16 w)) = ''202122232425262728292a2b2c2d2e2f''"
  using hex_third by (simp add: randomBytes_def)

lemma sample_token_fourth:
  "draws w = 3 \<Longrightarrow> entropy e = (\<lambda>n i. 16 * n + i) \<Longrightarrow>
   toString_hex (fst (randomBytes e 16 w)) = ''303132333435363738393a3b3c3d3e3f''"
  using hex_fourth by (simp add: randomBytes_def)

lemma fs_unlink_nodir:
  "fs w k \<noteq> Some Dir \<Longrightarrow> fs (snd (fs_unlink e p w)) k \<noteq> Some Dir"
  by (auto simp: fs_unlink_def Let_def split: option.splits node.splits)

lemma setPdfDPI_run:
  assumes nodir: "fs w (abs_segments (cwd e) psFile) \<noteq> Some Dir"
    and sh: "shell e (gs_command psFile inp out d)
               ((fs w)(abs_segments (cwd e) psFile \<mapsto> File (psContent d))) = (err, fs2)"
  shows "fst (setPdfDPI e inp out d w) =
           (case err of None \<Rightarrow> Inr () | Some m \<Rightarrow> Inl (''Failed to set PDF DPI: '' @ m))"
    and "new_events w (snd (setPdfDPI e inp out d w)) =
           [WriteFile psFile (psContent d), Spawn (gs_command psFile inp out d)]
           @ (case fs2 (abs_segments (cwd e) out) of Some (File b) \<Rightarrow> [Produced out b] | _ \<Rightarrow> [])
           @ [Unlink psFile]"
    and "\<forall>k. k \<noteq> abs_segments (cwd e) psFile \<longrightarrow> fs (snd (setPdfDPI e inp out d w)) k = fs2 k"
    and "\<forall>k. fs2 k \<noteq> Some Dir \<longrightarrow> fs (snd (setPdfDPI e inp out d w)) k \<noteq> Some Dir"
proof -
  let ?k = "abs_segments (cwd e) psFile"
  let ?cmd = "gs_command psFile inp out d"
  let ?pr = "case fs2 (abs_segments (cwd e) out) of Some (File b) \<Rightarrow> [Produced out b] | _ \<Rightarrow> []"
  let ?w1 = "w\<lparr>trace := trace w @ [WriteFile psFile (psContent d)],
               fs := (fs w)(?k \<mapsto> File (psContent d))\<rparr>"
  have wf: "fs_writeFile e psFile (psContent d) w = (Inr (), ?w1)"
    using nodir by (auto simp: fs_writeFile_def Let_def split: option.splits node.splits)
  define w2 where "w2 = snd (exec_gs e ?cmd out ?w1)"
  have ex: "exec_gs e ?cmd out ?w1 = (err, w2)"
    using sh by (auto simp: w2_def exec_gs_def Let_def split: option.splits node.splits)
  note X = exec_gs_world [OF ex]
  have tr: "trace w2 = trace w @ [WriteFile psFile (psContent d), Spawn ?cmd] @ ?pr"
    using X sh by simp
  have f2: "fs w2 = fs2" using X sh by simp
  have res: "setPdfDPI e inp out d w =
      (case err of None \<Rightarrow> Inr () | Some m \<Rightarrow> Inl (''Failed to set PDF DPI: '' @ m),
       snd (fs_unlink e psFile w2))"
    using wf ex by (simp add: setPdfDPI_def split: option.splits)
  show "fst (setPdfDPI e inp out d w) =
           (case err of None \<Rightarrow> Inr () | Some m \<Rightarrow> Inl (''Failed to set PDF DPI: '' @ m))"
    using res by simp
  have "trace (snd (setPdfDPI e inp out d w)) =
      trace w @ [WriteFile psFile (psContent d), Spawn ?cmd] @ ?pr @ [Unlink psFile]"
    using res tr fs_unlink_snd [of e psFile w2] by simp
  then show "new_events w (snd (setPdfDPI e inp out d w)) =
           [WriteFile psFile (psContent d), Spawn ?cmd] @ ?pr @ [Unlink psFile]"
    by (simp add: new_events_def)
  show "\<forall>k. k \<noteq> ?k \<longrightarrow> fs (snd (setPdfDPI e inp out d w)) k = fs2 k"
    using res f2 fs_unlink_snd [of e psFile w2] by simp
  show "\<forall>k. fs2 k \<noteq> Some Dir \<longrightarrow> fs (snd (setPdfDPI e inp out d w)) k \<noteq> Some Dir"
    using res f2 fs_unlink_nodir [of w2 _ e psFile] by simp
qed

lemma convert_file_run:
  assumes nodir: "fs w (abs_segments (cwd e) psFile) \<noteq> Some Dir"
    and sh: "shell e (gs_command psFile (path f)
                (''output/'' @ toString_hex (fst (randomBytes e 16 w)) @ ''.pdf'') d)
               ((fs w)(abs_segments (cwd e) psFile \<mapsto> File (psContent d))) = (err, fs2)"
  shows "fst (convert_file e d f w) =
           (case err of
              None \<Rightarrow> Inr \<lparr>originalName = originalname f,
                name = toString_hex (fst (randomBytes e 16 w)) @ ''.pdf'',
                url = ''/output/'' @ toString_hex (fst (randomBytes e 16 w)) @ ''.pdf'',
                dpi = d\<rparr>
            | Some m \<Rightarrow> Inl (''Failed to set PDF DPI: '' @ m))"
    and "new_events w (snd (convert_file e d f w)) =
           [WriteFile psFile (psContent d),
            Spawn (gs_command psFile (path f)
              (''output/'' @ toString_hex (fst (randomBytes e 16 w)) @ ''.pdf'') d)]
           @ (case fs2 (abs_segments (cwd e)
                     (''output/'' @ toString_hex (fst (randomBytes e 16 w)) @ ''.pdf'')) of
                Some (File b) \<Rightarrow>
                  [Produced (''output/'' @ toString_hex (fst (randomBytes e 16 w)) @ ''.pdf'') b]
              | _ \<Rightarrow> [])
           @ [Unlink psFile, Unlink (path f)]"
    and "\<forall>k. k \<noteq> abs_segments (cwd e) psFile \<longrightarrow> k \<noteq> abs_segments (cwd e) (path f) \<longrightarrow>
           fs (snd (convert_file e d f w)) k = fs2 k"
    and "draws (snd (convert_file e d f w)) = draws w + 1"
    and "\<forall>k. fs2 k \<noteq> Some Dir \<longrightarrow> fs (snd (convert_file e d f w)) k \<noteq> Some Dir"
    and "trace (snd (convert_file e d f w)) = trace w @ new_events w (snd (convert_file e d f w))"
proof -
  let ?tok = "toString_hex (fst (randomBytes e 16 w))"
  let ?out = "''output/'' @ ?tok @ ''.pdf''"
  let ?w1 = "snd (randomBytes e 16 w)"
  let ?pr = "case fs2 (abs_segments (cwd e) ?out) of Some (File b) \<Rightarrow> [Produced ?out b] | _ \<Rightarrow> []"
  have out: "path_join [''output'', ?tok @ ''.pdf''] = ?out"
    using path_join_output [OF token_pdf_plain [of e w]] by simp
  note R = randomBytes_world [of e 16 w]
  have nodir1: "fs ?w1 (abs_segments (cwd e) psFile) \<noteq> Some Dir" using nodir R by simp
  have sh1: "shell e (gs_command psFile (path f) ?out d)
               ((fs ?w1)(abs_segments (cwd e) psFile \<mapsto> File (psContent d))) = (err, fs2)"
    using sh R by simp
  note S = setPdfDPI_run [OF nodir1 sh1]
  let ?w2 = "snd (setPdfDPI e (path f) ?out d ?w1)"
  have cf: "convert_file e d f w =
      (case err of
         None \<Rightarrow> Inr \<lparr>originalName = originalname f, name = ?tok @ ''.pdf'',
                  url = ''/output/'' @ ?tok @ ''.pdf'', dpi = d\<rparr>
       | Some m \<Rightarrow> Inl (''Failed to set PDF DPI: '' @ m),
       snd (fs_unlink e (path f) ?w2))"
    using S(1) out by (simp add: convert_file_def Let_def case_prod_beta split: option.splits)
  show "fst (convert_file e d f w) =
           (case err of
              None \<Rightarrow> Inr \<lparr>originalName = originalname f, name = ?tok @ ''.pdf'',
                url = ''/output/'' @ ?tok @ ''.pdf'', dpi = d\<rparr>
            | Some m \<Rightarrow> Inl (''Failed to set PDF DPI: '' @ m))"
    using cf by simp
  obtain r2 w2' where sp: "setPdfDPI e (path f) ?out d ?w1 = (r2, w2')" by fastforce
  from setPdfDPI_world [OF sp] obtain evs where "trace w2' = trace ?w1 @ evs"
    and dr: "draws w2' = draws ?w1" by blast
  then have tr: "trace ?w2 = trace w @ evs" using sp R by simp
  then have "new_events ?w1 ?w2 = evs" using R by (simp add: new_events_def)
  with S(2) have evs: "evs = [WriteFile psFile (psContent d), Spawn (gs_command psFile (path f) ?out d)]
           @ ?pr @ [Unlink psFile]"
    by simp
  have tr': "trace (snd (convert_file e d f w)) = trace w @ evs @ [Unlink (path f)]"
    using cf tr fs_unlink_snd [of e "path f" ?w2] by simp
  then have "new_events w (snd (convert_file e d f w)) = evs @ [Unlink (path f)]"
    by (simp add: new_events_def)
  then show "new_events w (snd (convert_file e d f w)) =
           [WriteFile psFile (psContent d), Spawn (gs_command psFile (path f) ?out d)]
           @ ?pr @ [Unlink psFile, Unlink (path f)]"
    using evs by simp
  show "\<forall>k. k \<noteq> abs_segments (cwd e) psFile \<longrightarrow> k \<noteq> abs_segments (cwd e) (path f) \<longrightarrow>
           fs (snd (convert_file e d f w)) k = fs2 k"
    using cf S(3) fs_unlink_snd [of e "path f" ?w2] by simp
  show "draws (snd (convert_file e d f w)) = draws w + 1"
    using cf dr sp R fs_unlink_snd [of e "path f" ?w2] by simp
  show "\<forall>k. fs2 k \<noteq> Some Dir \<longrightarrow> fs (snd (convert_file e d f w)) k \<noteq> Some Dir"
    using cf S(4) fs_unlink_nodir [of ?w2 _ e "path f"] by simp
  show "trace (snd (convert_file e d f w)) = trace w @ new_events w (snd (convert_file e d f w))"
    using tr' by (simp add: new_events_def)
qed

lemma convert_file_succeeds:
  assumes "fs w (abs_segments (cwd e) psFile) \<noteq> Some Dir"
    and "fst (shell e (gs_command psFile (path f)
                (''output/'' @ toString_hex (fst (randomBytes e 16 w)) @ ''.pdf'') d)
               ((fs w)(abs_segments (cwd e) psFile \<mapsto> File (psContent d)))) = None"
  shows "fst (convert_file e d f w) =
           Inr \<lparr>originalName = originalname f,
                name = toString_hex (fst (randomBytes e 16 w)) @ ''.pdf'',
                url = ''/output/'' @ toString_hex (fst (randomBytes e 16 w)) @ ''.pdf'',
                dpi = d\<rparr>"
    and "spawned (new_events w (snd (convert_file e d f w))) =
           [gs_command psFile (path f)
              (''output/'' @ toString_hex (fst (randomBytes e 16 w)) @ ''.pdf'') d]"
proof -
  let ?cmd = "gs_command psFile (path f)
                (''output/'' @ toString_hex (fst (randomBytes e 16 w)) @ ''.pdf'') d"
  let ?f1 = "(fs w)(abs_segments (cwd e) psFile \<mapsto> File (psContent d))"
  have sh: "shell e ?cmd ?f1 = (None, snd (shell e ?cmd ?f1))"
    using assms(2) by (simp add: prod_eq_iff)
  note C = convert_file_run [OF assms(1) sh]
  show "fst (convert_file e d f w) =
           Inr \<lparr>originalName = originalname f,
                name = toString_hex (fst (randomBytes e 16 w)) @ ''.pdf'',
                url = ''/output/'' @ toString_hex (fst (randomBytes e 16 w)) @ ''.pdf'',
                dpi = d\<rparr>"
    using C(1) by simp
  show "spawned (new_events w (snd (convert_file e d f w))) = [?cmd]"
    unfolding C(2) by (simp add: spawned_append split: option.splits node.splits)
qed

subsection \<open>The shells of the concrete runs\<close>

lemma tail_words:
  assumes "\<forall>c\<in>set ps. \<not> is_space c" and "\<forall>c\<in>set inp. \<not> is_space c"
    and "\<forall>c\<in>set out. \<not> is_space c"
  shows "ws_words (''-f '' @ dquote @ ps @ dquote @ '' '' @ indent @ ''-f '' @ dquote @ inp
          @ dquote @ '' '' @ indent @ ''-sOutputFile='' @ dquote @ out @ dquote)
       = [''-f'', dquote @ ps @ dquote, ''-f'', dquote @ inp @ dquote,
          ''-sOutputFile='' @ dquote @ out @ dquote]"
  using assms by (simp add: ws_words_def indent_def dquote_def is_space_def split_words_nospace)

lemma gs_output_path_command:
  assumes "\<forall>c\<in>set ps. \<not> is_space c" and "\<forall>c\<in>set inp. \<not> is_space c"
    and "\<forall>c\<in>set out. \<not> is_space c" and "CHR 0x22 \<notin> set out"
  shows "gs_output_path (gs_command ps inp out d) = Some out"
proof -
  have "filter (\<lambda>c. c \<noteq> CHR 0x22) out = out"
    using assms(4) by (induction out) auto
  then show ?thesis
    by (simp only: gs_output_path_def gs_command_words tail_words [OF assms(1-3)])
       (simp add: option_value_def dquote_def)
qed

lemma token_output_word:
  "(\<forall>c\<in>set (''output/'' @ toString_hex (fst (randomBytes e 16 w)) @ ''.pdf''). \<not> is_space c)
   \<and> CHR 0x22 \<notin> set (''output/'' @ toString_hex (fst (randomBytes e 16 w)) @ ''.pdf'')"
  using token_chars [of e w] by (auto simp: is_space_def)

lemma sample_shell_gs:
  assumes "\<forall>c\<in>set inp. \<not> is_space c"
  shows "sample_shell wd
           (gs_command psFile inp (''output/'' @ toString_hex (fst (randomBytes e 16 w)) @ ''.pdf'') d) f
         = (None, f(abs_segments wd (''output/'' @ toString_hex (fst (randomBytes e 16 w)) @ ''.pdf'')
                      \<mapsto> File ''%PDF-1.4 converted''))"
proof -
  have ps: "\<forall>c\<in>set psFile. \<not> is_space c" by (simp add: psFile_eq is_space_def)
  from gs_output_path_command [OF ps assms, of _ d] token_output_word [of e w]
  show ?thesis by (simp add: sample_shell_def)
qed

lemma resolve_sample: "resolve_segments ''/srv/app'' = [''srv'', ''app'']"
  by code_simp

lemma resolve_other: "resolve_segments ''/srv'' = [''srv'']"
  by code_simp

lemma extname_sample: "extname ''a.pdf'' = ''.pdf''"
  by code_simp

lemma upload_accept:
  assumes "mimetype info = ''application/pdf''" and "length content \<le> fileSize_limit"
  shows "upload_array e ((info, content) # rest) uploaded w =
     upload_array e rest
       (uploaded @ [\<lparr>originalname = originalname info, mimetype = mimetype info,
            path = ''uploads/'' @ storage_filename (fst (randomBytes e 16 w)) info\<rparr>])
       (w\<lparr>draws := draws w + 1,
        fs := (fs w)(resolve_segments (cwd e)
                 @ [''uploads'', storage_filename (fst (randomBytes e 16 w)) info] \<mapsto> File content),
        trace := trace w @ [Stored (''uploads/'' @ storage_filename (fst (randomBytes e 16 w)) info)
                              (originalname info) (mimetype info)]\<rparr>)"
proof -
  let ?n = "storage_filename (fst (randomBytes e 16 w)) info"
  have n: "plain_segment ?n" by (rule storage_filename_plain)
  have p: "path_join [destination, ?n] = ''uploads/'' @ ?n"
    by (rule path_join_destination [OF n])
  have k: "abs_segments (cwd e) (''uploads/'' @ ?n) = resolve_segments (cwd e) @ [''uploads'', ?n]"
    using abs_segments_relative [of "''uploads''" ?n "cwd e"] n by (simp add: isAbsolute_def)
  show ?thesis
    using assms p k by (simp add: fileFilter_def Let_def case_prod_beta randomBytes_def)
qed

lemma upload_single:
  assumes "mimetype info = ''application/pdf''" and "length content \<le> fileSize_limit"
  shows "upload_array e [(info, content)] [] w =
     (Inr [\<lparr>originalname = originalname info, mimetype = mimetype info,
            path = ''uploads/'' @ storage_filename (fst (randomBytes e 16 w)) info\<rparr>],
      w\<lparr>draws := draws w + 1,
        fs := (fs w)(resolve_segments (cwd e)
                 @ [''uploads'', storage_filename (fst (randomBytes e 16 w)) info] \<mapsto> File content),
        trace := trace w @ [Stored (''uploads/'' @ storage_filename (fst (randomBytes e 16 w)) info)
                              (originalname info) (mimetype info)]\<rparr>)"
  using upload_accept [OF assms, of e "[]" "[]" w] by simp

lemma sample_world_nodir: "fs sample_world (abs_segments (cwd sample_env) psFile) \<noteq> Some Dir"
  by (simp add: abs_segments_psFile sample_env_def resolve_sample sample_world_def)

lemma sample_shell_ok:
  "\<forall>c\<in>set inp. \<not> is_space c \<Longrightarrow>
   fst (shell sample_env
          (gs_command psFile inp (''output/'' @ toString_hex (fst (randomBytes e 16 w)) @ ''.pdf'') d) f)
     = None"
  using sample_shell_gs [of inp "''/srv/app''" e w d f] by (simp add: sample_env_def)

lemma sample_staged_word: "\<forall>c\<in>set (path sample_staged). \<not> is_space c"
  by (simp add: sample_staged_def is_space_def)

lemma sample_world_shell_ok:
  "fst (shell sample_env
          (gs_command psFile (path sample_staged)
             (''output/'' @ toString_hex (fst (randomBytes sample_env 16 sample_world)) @ ''.pdf'') d) f)
     = None"
  by (rule sample_shell_ok [OF sample_staged_word])

lemma sample_world_token:
  "toString_hex (fst (randomBytes sample_env 16 sample_world)) = ''000102030405060708090a0b0c0d0e0f''"
  by (rule sample_token_first) (simp_all add: sample_world_def sample_env_def)

subsection \<open>The handler\<close>

lemma convert_file_trace:
  assumes run: "convert_file e d f w = (r, w')"
  shows "\<exists>evs. trace w' = trace w @ evs \<and> written_paths evs = [psFile] \<and> stored_types evs = []
     \<and> length (spawned evs) \<le> 1
     \<and> (\<forall>c\<in>set (spawned evs). \<exists>out. c = gs_command psFile (path f) out d)"
proof -
  let ?out = "path_join [''output'', toString_hex (fst (randomBytes e 16 w)) @ ''.pdf'']"
  define w1 where "w1 = snd (randomBytes e 16 w)"
  define r2 where "r2 = fst (setPdfDPI e (path f) ?out d w1)"
  define w2 where "w2 = snd (setPdfDPI e (path f) ?out d w1)"
  have sp: "setPdfDPI e (path f) ?out d w1 = (r2, w2)" by (simp add: r2_def w2_def)
  have R: "trace w1 = trace w" by (simp add: w1_def randomBytes_def)
  have w': "w' = snd (fs_unlink e (path f) w2)"
    using run by (auto simp: convert_file_def Let_def case_prod_beta w1_def w2_def split: sum.splits)
  from setPdfDPI_world [OF sp] obtain evs where tr: "trace w2 = trace w1 @ evs"
    and wp: "written_paths evs = [psFile]" and st: "stored_types evs = []"
    and spw: "spawned evs = [] \<or> spawned evs = [gs_command psFile (path f) ?out d]"
    by blast
  have "trace w' = trace w @ (evs @ [Unlink (path f)])"
    using w' fs_unlink_snd [of e "path f" w2] tr R by simp
  moreover have "written_paths (evs @ [Unlink (path f)]) = [psFile]"
    and "stored_types (evs @ [Unlink (path f)]) = []"
    using wp st by (simp_all add: written_paths_append stored_types_append)
  moreover have "length (spawned (evs @ [Unlink (path f)])) \<le> 1"
    and "\<forall>c\<in>set (spawned (evs @ [Unlink (path f)])). \<exists>out. c = gs_command psFile (path f) out d"
    using spw by (auto simp: spawned_append)
  ultimately show ?thesis by blast
qed

lemma convert_files_trace:
  assumes "convert_files e d fls acc w = (r, w')"
  shows "\<exists>evs. trace w' = trace w @ evs \<and> set (written_paths evs) \<subseteq> {psFile}
     \<and> stored_types evs = [] \<and> length (spawned evs) \<le> length fls
     \<and> (\<forall>c\<in>set (spawned evs). \<exists>g\<in>set fls. \<exists>out. c = gs_command psFile (path g) out d)"
  using assms
proof (induction fls arbitrary: acc w)
  case Nil
  then have "trace w' = trace w @ []" by simp
  then show ?case by (intro exI [of _ "[]"]) simp
next
  case (Cons f fls)
  obtain r1 w1 where cf: "convert_file e d f w = (r1, w1)" by fastforce
  from convert_file_trace [OF cf] obtain evs1 where
    t1: "trace w1 = trace w @ evs1" and wp1: "written_paths evs1 = [psFile]"
    and st1: "stored_types evs1 = []" and len1: "length (spawned evs1) \<le> 1"
    and cmd1: "\<forall>c\<in>set (spawned evs1). \<exists>out. c = gs_command psFile (path f) out d"
    by blast
  show ?case
  proof (cases r1)
    case (Inl m)
    with Cons.prems cf have "w' = w1" by simp
    with t1 wp1 st1 len1 cmd1 show ?thesis
      by (intro exI [of _ evs1]) auto
  next
    case (Inr res)
    with Cons.prems cf have rest: "convert_files e d fls (acc @ [res]) w1 = (r, w')" by simp
    from Cons.IH [OF rest] obtain evs2 where
      t2: "trace w' = trace w1 @ evs2" and wp2: "set (written_paths evs2) \<subseteq> {psFile}"
      and st2: "stored_types evs2 = []" and len2: "length (spawned evs2) \<le> length fls"
      and cmd2: "\<forall>c\<in>set (spawned evs2). \<exists>g\<in>set fls. \<exists>out. c = gs_command psFile (path g) out d"
      by blast
    have "trace w' = trace w @ (evs1 @ evs2)" using t1 t2 by simp
    moreover have "set (written_paths (evs1 @ evs2)) \<subseteq> {psFile}"
      using wp1 wp2 by (simp add: written_paths_append)
    moreover have "stored_types (evs1 @ evs2) = []"
      using st1 st2 by (simp add: stored_types_append)
    moreover have "length (spawned (evs1 @ evs2)) \<le> length (f # fls)"
      using len1 len2 by (simp add: spawned_append)
    moreover have "\<forall>c\<in>set (spawned (evs1 @ evs2)).
        \<exists>g\<in>set (f # fls). \<exists>out. c = gs_command psFile (path g) out d"
      using cmd1 cmd2 by (auto simp: spawned_append)
    ultimately show ?thesis by blast
  qed
qed

lemma convert_handler_rejects:
  "files req = [] \<or> targetDPI_of (body_dpi req) < 72 \<or> targetDPI_of (body_dpi req) > 2400 \<Longrightarrow>
   \<exists>msg. convert_handler e req w = (Response 400 (ErrorBody msg), w)"
  by (auto simp: convert_handler_def Let_def)

lemma convert_handler_processes:
  assumes "files req \<noteq> []" and "72 \<le> targetDPI_of (body_dpi req)"
    and "targetDPI_of (body_dpi req) \<le> 2400"
  shows "convert_handler e req w =
     (case convert_files e (targetDPI_of (body_dpi req)) (files req) [] w of
        (Inr results, w') \<Rightarrow>
          (Response 200 (FilesProcessed ''Files processed successfully'' results), w')
      | (Inl message, w') \<Rightarrow>
          (Response 500 (ErrorDetails ''Internal Server Error'' message), w'))"
  using assms by (simp add: convert_handler_def Let_def)

lemma convert_handler_trace:
  "\<exists>evs. trace (snd (convert_handler e req w)) = trace w @ evs
     \<and> set (written_paths evs) \<subseteq> {psFile} \<and> stored_types evs = []
     \<and> length (spawned evs) \<le> length (files req)
     \<and> (\<forall>c\<in>set (spawned evs). \<exists>g\<in>set (files req). \<exists>out.
           c = gs_command psFile (path g) out (targetDPI_of (body_dpi req)))
     \<and> (evs \<noteq> [] \<longrightarrow> 72 \<le> targetDPI_of (body_dpi req) \<and> targetDPI_of (body_dpi req) \<le> 2400)"
proof (cases "files req = [] \<or> targetDPI_of (body_dpi req) < 72 \<or> targetDPI_of (body_dpi req) > 2400")
  case True
  from convert_handler_rejects [OF this, of e w] show ?thesis
    by (intro exI [of _ "[]"]) auto
next
  case False
  then have ok: "files req \<noteq> []" "72 \<le> targetDPI_of (body_dpi req)"
    "targetDPI_of (body_dpi req) \<le> 2400" by auto
  obtain r w' where cf: "convert_files e (targetDPI_of (body_dpi req)) (files req) [] w = (r, w')"
    by fastforce
  have "snd (convert_handler e req w) = w'"
    using convert_handler_processes [OF ok, of e w] cf by (simp split: sum.splits)
  with convert_files_trace [OF cf] ok show ?thesis by auto
qed

lemma single_file_succeeds:
  assumes "72 \<le> targetDPI_of field" and "targetDPI_of field \<le> 2400"
    and "fs w (abs_segments (cwd e) psFile) \<noteq> Some Dir"
    and "fst (shell e (gs_command psFile (path f)
                (''output/'' @ toString_hex (fst (randomBytes e 16 w)) @ ''.pdf'') (targetDPI_of field))
               ((fs w)(abs_segments (cwd e) psFile \<mapsto> File (psContent (targetDPI_of field))))) = None"
  shows "fst (convert_handler e \<lparr>files = [f], body_dpi = field\<rparr> w) =
           Response 200 (FilesProcessed ''Files processed successfully''
             [\<lparr>originalName = originalname f,
               name = toString_hex (fst (randomBytes e 16 w)) @ ''.pdf'',
               url = ''/output/'' @ toString_hex (fst (randomBytes e 16 w)) @ ''.pdf'',
               dpi = targetDPI_of field\<rparr>])"
    and "spawned (new_events w (snd (convert_handler e \<lparr>files = [f], body_dpi = field\<rparr> w))) =
           [gs_command psFile (path f)
              (''output/'' @ toString_hex (fst (randomBytes e 16 w)) @ ''.pdf'') (targetDPI_of field)]"
proof -
  let ?d = "targetDPI_of field"
  note C = convert_file_succeeds [OF assms(3,4)]
  obtain r1 w1 where cf: "convert_file e ?d f w = (r1, w1)" by fastforce
  have h: "convert_handler e \<lparr>files = [f], body_dpi = field\<rparr> w =
      (Response 200 (FilesProcessed ''Files processed successfully'' [projr r1]), w1)"
    using assms(1,2) cf C(1) by (simp add: convert_handler_def Let_def)
  show "fst (convert_handler e \<lparr>files = [f], body_dpi = field\<rparr> w) =
           Response 200 (FilesProcessed ''Files processed successfully''
             [\<lparr>originalName = originalname f,
               name = toString_hex (fst (randomBytes e 16 w)) @ ''.pdf'',
               url = ''/output/'' @ toString_hex (fst (randomBytes e 16 w)) @ ''.pdf'',
               dpi = targetDPI_of field\<rparr>])"
    using h cf C(1) by simp
  show "spawned (new_events w (snd (convert_handler e \<lparr>files = [f], body_dpi = field\<rparr> w))) =
           [gs_command psFile (path f)
              (''output/'' @ toString_hex (fst (randomBytes e 16 w)) @ ''.pdf'') (targetDPI_of field)]"
    using h cf C(2) by simp
qed

lemma number_string_300: "js_number_string 300 = ''300''"
  by code_simp

lemma parseInt_zero: "js_parseInt ''0'' = Some 0"
  by code_simp

lemma parseInt_fifty: "js_parseInt ''50'' = Some 50"
  by code_simp

lemma parseInt_letters: "js_parseInt ''abc'' = None"
  by code_simp








subsection \<open>A request with one file, and the names of the concrete runs\<close>

lemma single_file_handler:
  assumes "72 \<le> targetDPI_of field" and "targetDPI_of field \<le> 2400"
  shows "convert_handler e \<lparr>files = [f], body_dpi = field\<rparr> w =
     (case convert_file e (targetDPI_of field) f w of
        (Inr r, w') \<Rightarrow> (Response 200 (FilesProcessed ''Files processed successfully'' [r]), w')
      | (Inl m, w') \<Rightarrow> (Response 500 (ErrorDetails ''Internal Server Error'' m), w'))"
  using assms by (simp add: convert_handler_def Let_def split: prod.splits sum.splits)

lemma first_name_plain: "plain_segment ''000102030405060708090a0b0c0d0e0f.pdf''"
  by (simp add: plain_segment_def)

lemma first_output_key:
  "abs_segments ''/srv/app'' ''output/000102030405060708090a0b0c0d0e0f.pdf''
     = [''srv'', ''app'', ''output'', ''000102030405060708090a0b0c0d0e0f.pdf'']"
  using abs_segments_output [OF first_name_plain, of "''/srv/app''"] by (simp add: resolve_sample)

lemma sample_psFile_key: "abs_segments ''/srv/app'' psFile = [''srv'', ''app'', ''uploads'', ''setdpi.ps'']"
  by (simp add: abs_segments_psFile resolve_sample)

lemma sample_staged_paths: "is_staged_path (path sample_staged)"
  by (simp add: is_staged_path_def plain_segment_def sample_staged_def)

subsection \<open>The engine invocation\<close>



subsection \<open>The directive\<close>

text \<open>
  C6. The directive text is a function of the target DPI alone. Its words are the fixed
  words of the template, with the decimal text of the target DPI at three places: the
  colour, grey and mono image resolutions. Downsampling is switched off for the three image
  classes, colour and grey images use the flate filter and mono images the fax filter, and
  the document metadata are fixed words that do not depend on the input.
\<close>

theorem directive_of_targetDPI:
  "(let ws = ws_words (psContent targetDPI); n = js_number_string targetDPI in
      ws = [''<<'', ''/EndPage'', ''{'', ''2'', ''dict'', ''begin'', ''/pdfmark'', ''where'', 
      ''{pop}'', ''{userdict'', ''/pdfmark'', ''/cleartomark'', ''load'', ''put}'', 
      ''ifelse'', ''['', ''/Title'', ''(Set'', ''DPI)'', ''/Author'', ''(PDF'', 
      ''Processor)'', ''/Creator'', ''(PDF'', ''DPI'', ''Setter)'', ''/Producer'', 
      ''(Ghostscript)'', ''/ModDate'', ''(D:20240214)'', ''/CreationDate'', ''(D:20240214)'', 
      ''/Subject'', ''(DPI'', ''Modified'', ''PDF)'', ''/Keywords'', ''(DPI,'', ''PDF)'', 
      ''/ViewerPreferences'', ''<<'', ''/DisplayDocTitle'', ''true'', ''/HideToolbar'', 
      ''false'', ''/HideMenubar'', ''false'', ''/HideWindowUI'', ''false'', ''/FitWindow'', 
      ''false'', ''/CenterWindow'', ''false'', ''/ShowPrintDialog'', ''true'', ''>>'', 
      ''/SetDistillerParams'', ''<<'', ''/AutoRotatePages'', ''/None'', 
      ''/ColorImageDownsampleType'', ''/None'', ''/GrayImageDownsampleType'', ''/None'', 
      ''/MonoImageDownsampleType'', ''/None'', ''/ColorImageResolution'', n, 
      ''/GrayImageResolution'', n, ''/MonoImageResolution'', n, ''/DownsampleColorImages'', 
      ''false'', ''/DownsampleGrayImages'', ''false'', ''/DownsampleMonoImages'', ''false'', 
      ''/AutoFilterColorImages'', ''false'', ''/AutoFilterGrayImages'', ''false'', 
      ''/ColorImageFilter'', ''/FlateEncode'', ''/GrayImageFilter'', ''/FlateEncode'', 
      ''/MonoImageFilter'', ''/CCITTFaxEncode'', ''/ColorConversionStrategy'', 
      ''/LeaveColorUnchanged'', ''/PreserveOverprintSettings'', ''true'', ''/UCRandBGInfo'', 
      ''/Preserve'', ''/ParseDSCComments'', ''true'', ''/PreserveCopyPage'', ''true'', 
      ''/CannotEmbedFontPolicy'', ''/Warning'', ''>>'', ''/DOCINFO'', ''pdfmark'', ''}'', 
      ''stopped'', ''cleartomark'', ''end'', ''true'', ''}'', ''bind>>'', ''setpagedevice'']
      \<and> value_after ''/DownsampleColorImages'' ws = Some ''false''
      \<and> value_after ''/DownsampleGrayImages'' ws = Some ''false''
      \<and> value_after ''/DownsampleMonoImages'' ws = Some ''false''
      \<and> value_after ''/ColorImageDownsampleType'' ws = Some ''/None''
      \<and> value_after ''/GrayImageDownsampleType'' ws = Some ''/None''
      \<and> value_after ''/MonoImageDownsampleType'' ws = Some ''/None''
      \<and> value_after ''/ColorImageResolution'' ws = Some n
      \<and> value_after ''/GrayImageResolution'' ws = Some n
      \<and> value_after ''/MonoImageResolution'' ws = Some n
      \<and> value_after ''/ColorImageFilter'' ws = Some ''/FlateEncode''
      \<and> value_after ''/GrayImageFilter'' ws = Some ''/FlateEncode''
      \<and> value_after ''/MonoImageFilter'' ws = Some ''/CCITTFaxEncode''
      \<and> js_parseInt n = Some targetDPI)"
  by (simp add: psContent_words Let_def parseInt_number_string)

subsection \<open>The path of the directive\<close>

text \<open>
  C7. Every conversion attempt, whatever the input file, the output token and the target DPI,
  writes the directive to one fixed path, \<^verbatim>\<open>uploads/setdpi.ps\<close> under the working
  directory of the process: it is the only file the attempt writes with \<^verbatim>\<open>fs.writeFile\<close>,
  and the random token of the attempt takes no part in it.
\<close>

theorem directive_path_fixed:
  "written_paths (new_events w (snd (setPdfDPI e inputPath outputPath targetDPI w)))
     = [''uploads/setdpi.ps'']
   \<and> abs_segments (cwd e) ''uploads/setdpi.ps'' = resolve_segments (cwd e) @ [''uploads'', ''setdpi.ps'']"
proof -
  obtain r w' where run: "setPdfDPI e inputPath outputPath targetDPI w = (r, w')" by fastforce
  from setPdfDPI_world [OF run] obtain evs where
    "trace w' = trace w @ evs" and "written_paths evs = [psFile]" by blast
  then have "written_paths (new_events w w') = [''uploads/setdpi.ps'']"
    by (simp add: new_events_def psFile_eq)
  moreover have "abs_segments (cwd e) ''uploads/setdpi.ps''
      = resolve_segments (cwd e) @ [''uploads'', ''setdpi.ps'']"
    using abs_segments_psFile [of "cwd e"] by (simp add: psFile_eq)
  ultimately show ?thesis using run by simp
qed

theorem directive_path_fixed_witness:
  "written_paths (new_events sample_world
      (snd (setPdfDPI sample_env (path sample_staged) ''output/000102030405060708090a0b0c0d0e0f.pdf'' 300
         sample_world)))
     = [''uploads/setdpi.ps'']
   \<and> written_paths (new_events sample_world
      (snd (setPdfDPI sample_env (path sample_staged2) ''output/101112131415161718191a1b1c1d1e1f.pdf'' 72
         sample_world)))
     = [''uploads/setdpi.ps'']"
  using directive_path_fixed [of sample_world sample_env "path sample_staged"
      "''output/000102030405060708090a0b0c0d0e0f.pdf''" 300]
    directive_path_fixed [of sample_world sample_env "path sample_staged2"
      "''output/101112131415161718191a1b1c1d1e1f.pdf''" 72]
  by simp

subsection \<open>Names and links in a successful response\<close>

text \<open>
  C10. In every entry of the \<^verbatim>\<open>files\<close> array of a successful response of
  \<^verbatim>\<open>/convert\<close>, the name is 32 lower-case hexadecimal characters followed by
  \<^verbatim>\<open>.pdf\<close>, and the link is \<^verbatim>\<open>/output/\<close> followed by that name.
\<close>

theorem result_name_and_url:
  assumes "convert_handler e req w = (Response 200 (FilesProcessed msg results), w')"
  shows "\<forall>r\<in>set results. length (name r) = 36
           \<and> set (take 32 (name r)) \<subseteq> set ''0123456789abcdef''
           \<and> drop 32 (name r) = ''.pdf''
           \<and> url r = ''/output/'' @ name r"
proof -
  have ok: "files req \<noteq> []" "72 \<le> targetDPI_of (body_dpi req)" "targetDPI_of (body_dpi req) \<le> 2400"
    using assms by (auto simp: convert_handler_def Let_def split: if_splits)
  obtain r1 w1 where cf: "convert_files e (targetDPI_of (body_dpi req)) (files req) [] w = (r1, w1)"
    by fastforce
  have "r1 = Inr results"
    using assms convert_handler_processes [OF ok, of e w] cf by (auto split: sum.splits)
  with cf convert_files_results [of e "targetDPI_of (body_dpi req)" "files req" "[]" w results w1]
  show ?thesis by auto
qed

theorem result_name_and_url_witness:
  "convert_handler sample_env \<lparr>files = [sample_staged], body_dpi = None\<rparr> sample_world =
     (Response 200 (FilesProcessed ''Files processed successfully''
        [\<lparr>originalName = ''a.pdf'', name = ''000102030405060708090a0b0c0d0e0f.pdf'',
          url = ''/output/000102030405060708090a0b0c0d0e0f.pdf'', dpi = 300\<rparr>]),
      snd (convert_handler sample_env \<lparr>files = [sample_staged], body_dpi = None\<rparr> sample_world))
   \<and> length ''000102030405060708090a0b0c0d0e0f.pdf'' = 36
   \<and> set (take 32 ''000102030405060708090a0b0c0d0e0f.pdf'') \<subseteq> set ''0123456789abcdef''
   \<and> drop 32 ''000102030405060708090a0b0c0d0e0f.pdf'' = ''.pdf''"
proof -
  have d: "targetDPI_of None = 300" by (simp add: targetDPI_of_def dpi_field_number_def)
  have "fst (convert_handler sample_env \<lparr>files = [sample_staged], body_dpi = None\<rparr> sample_world) =
     Response 200 (FilesProcessed ''Files processed successfully''
        [\<lparr>originalName = ''a.pdf'', name = ''000102030405060708090a0b0c0d0e0f.pdf'',
          url = ''/output/000102030405060708090a0b0c0d0e0f.pdf'', dpi = 300\<rparr>])"
    using single_file_succeeds(1) [of None sample_world sample_env sample_staged,
        OF _ _ sample_world_nodir sample_world_shell_ok] d sample_world_token
    by (simp add: sample_staged_def)
  then have run: "convert_handler sample_env \<lparr>files = [sample_staged], body_dpi = None\<rparr> sample_world =
     (Response 200 (FilesProcessed ''Files processed successfully''
        [\<lparr>originalName = ''a.pdf'', name = ''000102030405060708090a0b0c0d0e0f.pdf'',
          url = ''/output/000102030405060708090a0b0c0d0e0f.pdf'', dpi = 300\<rparr>]),
      snd (convert_handler sample_env \<lparr>files = [sample_staged], body_dpi = None\<rparr> sample_world))"
    by (metis prod.collapse)
  from result_name_and_url [OF run] have
    "length ''000102030405060708090a0b0c0d0e0f.pdf'' = 36
     \<and> set (take 32 ''000102030405060708090a0b0c0d0e0f.pdf'') \<subseteq> set ''0123456789abcdef''
     \<and> drop 32 ''000102030405060708090a0b0c0d0e0f.pdf'' = ''.pdf''"
    by simp
  with run show ?thesis by blast
qed

subsection \<open>The default DPI\<close>







subsection \<open>The range check on the DPI\<close>

text \<open>
  A form value that is the decimal text of an integer other than zero, below 72 or above 2400,
  is rejected with status 400 before anything is spawned or written.
\<close>

lemma nonzero_out_of_range_rejected:
  assumes "n \<noteq> 0" and "n < 72 \<or> n > 2400" and "files req \<noteq> []"
    and "body_dpi req = Some (js_number_string n)"
  shows "convert_handler e req w = (Response 400 (ErrorBody ''DPI must be between 72 and 2400''), w)"
  using assms
  by (auto simp: convert_handler_def Let_def targetDPI_of_def dpi_field_number_def
      parseInt_number_string)

text \<open>
  C3. A request whose \<^verbatim>\<open>dpi\<close> value denotes an integer below 72 or above 2400 is to be
  rejected with status 400 and nothing spawned. The value \<^verbatim>\<open>0\<close> denotes such an integer
  and is not rejected: \<^verbatim>\<open>parseInt("0") || 300\<close> is 300, so the request is answered with
  status 200, the engine is spawned and the file is converted at 300 DPI.
\<close>

theorem dpi_zero_is_converted:
  "fst (post_convert sample_env \<lparr>file_parts = [sample_pdf], dpi_field = Some ''0''\<rparr> empty_world) =
     Response 200 (FilesProcessed ''Files processed successfully''
        [\<lparr>originalName = ''a.pdf'', name = ''101112131415161718191a1b1c1d1e1f.pdf'',
          url = ''/output/101112131415161718191a1b1c1d1e1f.pdf'', dpi = 300\<rparr>])
   \<and> spawned (trace
        (snd (post_convert sample_env \<lparr>file_parts = [sample_pdf], dpi_field = Some ''0''\<rparr> empty_world))) =
     [gs_command ''uploads/setdpi.ps'' ''uploads/000102030405060708090a0b0c0d0e0f.pdf''
        ''output/101112131415161718191a1b1c1d1e1f.pdf'' 300]"
proof -
  let ?info = "\<lparr>originalname = ''a.pdf'', mimetype = ''application/pdf''\<rparr>"
  let ?f = "\<lparr>originalname = ''a.pdf'', mimetype = ''application/pdf'',
            path = ''uploads/000102030405060708090a0b0c0d0e0f.pdf''\<rparr>"
  let ?w1 = "empty_world\<lparr>draws := 1,
        fs := Map.empty([''srv'', ''app'', ''uploads'', ''000102030405060708090a0b0c0d0e0f.pdf'']
                 \<mapsto> File ''%PDF-1.4 original''),
        trace := [Stored ''uploads/000102030405060708090a0b0c0d0e0f.pdf'' ''a.pdf'' ''application/pdf'']\<rparr>"
  have tok: "toString_hex (fst (randomBytes sample_env 16 empty_world))
      = ''000102030405060708090a0b0c0d0e0f''"
    by (rule sample_token_first) (simp_all add: empty_world_def sample_env_def)
  have n: "storage_filename (fst (randomBytes sample_env 16 empty_world)) ?info
      = ''000102030405060708090a0b0c0d0e0f.pdf''"
    by (simp add: storage_filename_def tok extname_sample)
  have up: "upload_array sample_env [(?info, ''%PDF-1.4 original'')] [] empty_world = (Inr [?f], ?w1)"
    using upload_single [of ?info "''%PDF-1.4 original''" sample_env empty_world] n resolve_sample
    by (simp add: fileSize_limit_def) (simp add: empty_world_def sample_env_def)
  have d: "targetDPI_of (Some ''0'') = 300"
    by (simp add: targetDPI_of_def dpi_field_number_def parseInt_zero)
  have tok2: "toString_hex (fst (randomBytes sample_env 16 ?w1)) = ''101112131415161718191a1b1c1d1e1f''"
    by (rule sample_token_second) (simp_all add: sample_env_def)
  have nodir: "fs ?w1 (abs_segments (cwd sample_env) psFile) \<noteq> Some Dir"
    by simp
  have eng: "fst (shell sample_env
        (gs_command psFile (path ?f)
           (''output/'' @ toString_hex (fst (randomBytes sample_env 16 ?w1)) @ ''.pdf'')
           (targetDPI_of (Some ''0'')))
        ((fs ?w1)(abs_segments (cwd sample_env) psFile \<mapsto> File (psContent (targetDPI_of (Some ''0''))))))
      = None"
    by (rule sample_shell_ok) (simp add: is_space_def)
  note H = single_file_succeeds [of "Some ''0''" ?w1 sample_env ?f, OF _ _ nodir eng]
  have r: "fst (convert_handler sample_env \<lparr>files = [?f], body_dpi = Some ''0''\<rparr> ?w1) =
     Response 200 (FilesProcessed ''Files processed successfully''
        [\<lparr>originalName = ''a.pdf'', name = ''101112131415161718191a1b1c1d1e1f.pdf'',
          url = ''/output/101112131415161718191a1b1c1d1e1f.pdf'', dpi = 300\<rparr>])"
    using H(1) d tok2 by simp
  have "spawned (new_events ?w1 (snd (convert_handler sample_env \<lparr>files = [?f], body_dpi = Some ''0''\<rparr> ?w1))) =
     [gs_command ''uploads/setdpi.ps'' ''uploads/000102030405060708090a0b0c0d0e0f.pdf''
        ''output/101112131415161718191a1b1c1d1e1f.pdf'' 300]"
    using H(2) d tok2 by (simp add: psFile_eq)
  moreover from convert_handler_trace [of sample_env "\<lparr>files = [?f], body_dpi = Some ''0''\<rparr>" ?w1]
  obtain evs where "trace (snd (convert_handler sample_env \<lparr>files = [?f], body_dpi = Some ''0''\<rparr> ?w1))
      = trace ?w1 @ evs" by blast
  ultimately have s: "spawned (trace (snd (convert_handler sample_env \<lparr>files = [?f], body_dpi = Some ''0''\<rparr> ?w1))) =
     [gs_command ''uploads/setdpi.ps'' ''uploads/000102030405060708090a0b0c0d0e0f.pdf''
        ''output/101112131415161718191a1b1c1d1e1f.pdf'' 300]"
    by (simp add: new_events_def spawned_append)
  show ?thesis
    using r s by (simp add: post_convert_def sample_pdf_def up del: upload_array.simps)
qed

subsection \<open>Cleanup of staged files\<close>

text \<open>
  What the loop does for the file it is working on: when its turn ends, with a result or with
  an error, neither the staged file nor the directive is a file on the disk any more.
\<close>

lemma attempted_file_cleaned:
  assumes "convert_file e d f w = (r, w')"
  shows "\<not> is_file (fs w') (abs_segments (cwd e) (path f))
    \<and> \<not> is_file (fs w') (abs_segments (cwd e) psFile)"
  using convert_file_world [OF assms] by blast

text \<open>
  C1. Every staged input file of a request is to be gone from the uploads directory when the
  request completes, with a success or a failure. The handler unlinks a staged file only in
  the turn of the loop that converts it, so a request that is answered before the loop, or
  whose loop stops at an earlier file, leaves staged files behind. Here one PDF is uploaded
  with \<^verbatim>\<open>dpi=50\<close>: the middleware stages it, the handler answers 400, and the staged
  file is still on the disk; nothing was unlinked.
\<close>

theorem staged_file_left_after_rejection:
  "fst (post_convert sample_env \<lparr>file_parts = [sample_pdf], dpi_field = Some ''50''\<rparr> empty_world)
     = Response 400 (ErrorBody ''DPI must be between 72 and 2400'')
   \<and> fs (snd (post_convert sample_env \<lparr>file_parts = [sample_pdf], dpi_field = Some ''50''\<rparr> empty_world))
        [''srv'', ''app'', ''uploads'', ''000102030405060708090a0b0c0d0e0f.pdf'']
     = Some (File ''%PDF-1.4 original'')
   \<and> trace (snd (post_convert sample_env \<lparr>file_parts = [sample_pdf], dpi_field = Some ''50''\<rparr> empty_world))
     = [Stored ''uploads/000102030405060708090a0b0c0d0e0f.pdf'' ''a.pdf'' ''application/pdf'']"
proof -
  let ?info = "\<lparr>originalname = ''a.pdf'', mimetype = ''application/pdf''\<rparr>"
  have tok: "toString_hex (fst (randomBytes sample_env 16 empty_world))
      = ''000102030405060708090a0b0c0d0e0f''"
    by (rule sample_token_first) (simp_all add: empty_world_def sample_env_def)
  have n: "storage_filename (fst (randomBytes sample_env 16 empty_world)) ?info
      = ''000102030405060708090a0b0c0d0e0f.pdf''"
    by (simp add: storage_filename_def tok extname_sample)
  have up: "upload_array sample_env [(?info, ''%PDF-1.4 original'')] [] empty_world =
     (Inr [\<lparr>originalname = ''a.pdf'', mimetype = ''application/pdf'',
            path = ''uploads/000102030405060708090a0b0c0d0e0f.pdf''\<rparr>],
      empty_world\<lparr>draws := 1,
        fs := Map.empty([''srv'', ''app'', ''uploads'', ''000102030405060708090a0b0c0d0e0f.pdf'']
                 \<mapsto> File ''%PDF-1.4 original''),
        trace := [Stored ''uploads/000102030405060708090a0b0c0d0e0f.pdf'' ''a.pdf'' ''application/pdf'']\<rparr>)"
    using upload_single [of ?info "''%PDF-1.4 original''" sample_env empty_world] n resolve_sample
    by (simp add: fileSize_limit_def) (simp add: empty_world_def sample_env_def)
  have d: "targetDPI_of (Some ''50'') = 50"
    by (simp add: targetDPI_of_def dpi_field_number_def parseInt_fifty)
  have "post_convert sample_env \<lparr>file_parts = [sample_pdf], dpi_field = Some ''50''\<rparr> empty_world =
     (Response 400 (ErrorBody ''DPI must be between 72 and 2400''),
      empty_world\<lparr>draws := 1,
        fs := Map.empty([''srv'', ''app'', ''uploads'', ''000102030405060708090a0b0c0d0e0f.pdf'']
                 \<mapsto> File ''%PDF-1.4 original''),
        trace := [Stored ''uploads/000102030405060708090a0b0c0d0e0f.pdf'' ''a.pdf'' ''application/pdf'']\<rparr>)"
    by (simp add: post_convert_def sample_pdf_def up convert_handler_def d del: upload_array.simps)
  then show ?thesis by simp
qed

subsection \<open>A batch that fails at one file\<close>

text \<open>
  What the handler itself does when the conversion of a file fails after the files before it
  were converted: the caller receives one response, with status 500 and an error body that
  lists no file, and a command is spawned at most once for each of the files up to the
  failing one and never for a file after it.
\<close>

lemma batch_aborts:
  assumes split: "files req = pre @ f # post"
    and lo: "72 \<le> targetDPI_of (body_dpi req)" and hi: "targetDPI_of (body_dpi req) \<le> 2400"
    and before: "convert_files e (targetDPI_of (body_dpi req)) pre [] w = (Inr rs, w1)"
    and fails: "convert_file e (targetDPI_of (body_dpi req)) f w1 = (Inl message, w2)"
  shows "convert_handler e req w = (Response 500 (ErrorDetails ''Internal Server Error'' message), w2)
    \<and> length rs = length pre
    \<and> length (spawned (new_events w w2)) \<le> length pre + 1
    \<and> (\<forall>c\<in>set (spawned (new_events w w2)). \<exists>g\<in>set (pre @ [f]). \<exists>out.
          c = gs_command psFile (path g) out (targetDPI_of (body_dpi req)))"
proof -
  let ?d = "targetDPI_of (body_dpi req)"
  have all: "convert_files e ?d (files req) [] w = (Inl message, w2)"
    using before fails by (simp add: split convert_files_append)
  have ne: "files req \<noteq> []" using split by simp
  have resp: "convert_handler e req w = (Response 500 (ErrorDetails ''Internal Server Error'' message), w2)"
    using convert_handler_processes [OF ne lo hi, of e w] all by simp
  from convert_files_results [OF before] have len: "length rs = length pre" by auto
  from convert_files_trace [OF before] obtain evs1 where
    t1: "trace w1 = trace w @ evs1" and len1: "length (spawned evs1) \<le> length pre"
    and cmd1: "\<forall>c\<in>set (spawned evs1). \<exists>g\<in>set pre. \<exists>out. c = gs_command psFile (path g) out ?d"
    by blast
  from convert_file_trace [OF fails] obtain evs2 where
    t2: "trace w2 = trace w1 @ evs2" and len2: "length (spawned evs2) \<le> 1"
    and cmd2: "\<forall>c\<in>set (spawned evs2). \<exists>out. c = gs_command psFile (path f) out ?d"
    by blast
  have ev2: "new_events w w2 = evs1 @ evs2" using t1 t2 by (simp add: new_events_def)
  have count: "length (spawned (new_events w w2)) \<le> length pre + 1"
    using len1 len2 by (simp add: ev2 spawned_append)
  have cmds: "\<forall>c\<in>set (spawned (new_events w w2)). \<exists>g\<in>set (pre @ [f]). \<exists>out.
          c = gs_command psFile (path g) out ?d"
    using cmd1 cmd2 by (auto simp: ev2 spawned_append)
  from resp len count cmds show ?thesis by blast
qed

lemma extname_injected: "extname ''b.pdf$(rm -rf output)'' = ''.pdf$(rm -rf output)''"
  by code_simp

lemma first_command_plain:
  "has_infix ''$(rm -rf output)''
     (gs_command ''uploads/setdpi.ps'' ''uploads/000102030405060708090a0b0c0d0e0f.pdf''
        ''output/202122232425262728292a2b2c2d2e2f.pdf'' 300) = False"
  by (simp add: gs_command_def indent_def dquote_def number_string_300)

lemma second_command_injected:
  "has_infix ''$(rm -rf output)''
     (gs_command ''uploads/setdpi.ps''
        ''uploads/101112131415161718191a1b1c1d1e1f.pdf$(rm -rf output)''
        ''output/303132333435363738393a3b3c3d3e3f.pdf'' 300) = True"
  by (simp add: gs_command_def indent_def dquote_def number_string_300)

text \<open>
  C2. In a batch whose file \<open>k\<close> fails, the outputs already produced for the files before
  \<open>k\<close> are to remain on the disk. The paths of the staged files stand unescaped between
  double quotes in the command line that \<^verbatim>\<open>exec\<close> hands to the shell, and a staged path
  ends in the extension that the client gave. Here two PDF files are uploaded, the second
  under the name \<^verbatim>\<open>b.pdf$(rm -rf output)\<close>. The first is converted and its output is at
  its path when its command has ended. The command of the second makes the shell remove
  the directory of the outputs and fails: the request is answered 500, and the output of
  the first file is no longer on the disk.
\<close>

theorem batch_failure_removes_output:
  "fst (post_convert injected_env \<lparr>file_parts = [sample_pdf, injected_pdf], dpi_field = None\<rparr> empty_world)
     = Response 500 (ErrorDetails ''Internal Server Error'' ''Failed to set PDF DPI: Command failed'')
   \<and> spawned (trace (snd (post_convert injected_env
        \<lparr>file_parts = [sample_pdf, injected_pdf], dpi_field = None\<rparr> empty_world)))
     = [gs_command ''uploads/setdpi.ps'' ''uploads/000102030405060708090a0b0c0d0e0f.pdf''
          ''output/202122232425262728292a2b2c2d2e2f.pdf'' 300,
        gs_command ''uploads/setdpi.ps''
          ''uploads/101112131415161718191a1b1c1d1e1f.pdf$(rm -rf output)''
          ''output/303132333435363738393a3b3c3d3e3f.pdf'' 300]
   \<and> last_produced ''output/202122232425262728292a2b2c2d2e2f.pdf''
        (trace (snd (post_convert injected_env
           \<lparr>file_parts = [sample_pdf, injected_pdf], dpi_field = None\<rparr> empty_world)))
     = Some ''%PDF-1.4 converted''
   \<and> fs (snd (post_convert injected_env
        \<lparr>file_parts = [sample_pdf, injected_pdf], dpi_field = None\<rparr> empty_world))
        [''srv'', ''app'', ''output'', ''202122232425262728292a2b2c2d2e2f.pdf'']
     = None"
proof -
  let ?e = injected_env
  let ?info1 = "\<lparr>originalname = ''a.pdf'', mimetype = ''application/pdf''\<rparr>"
  let ?info2 = "\<lparr>originalname = ''b.pdf$(rm -rf output)'', mimetype = ''application/pdf''\<rparr>"
  let ?p1 = "''uploads/000102030405060708090a0b0c0d0e0f.pdf''"
  let ?p2 = "''uploads/101112131415161718191a1b1c1d1e1f.pdf$(rm -rf output)''"
  let ?f1 = "\<lparr>originalname = ''a.pdf'', mimetype = ''application/pdf'', path = ?p1\<rparr>"
  let ?f2 = "\<lparr>originalname = ''b.pdf$(rm -rf output)'', mimetype = ''application/pdf'', path = ?p2\<rparr>"
  let ?k1 = "[''srv'', ''app'', ''uploads'', ''000102030405060708090a0b0c0d0e0f.pdf'']"
  let ?k2 = "[''srv'', ''app'', ''uploads'', ''101112131415161718191a1b1c1d1e1f.pdf$(rm -rf output)'']"
  let ?pk = "[''srv'', ''app'', ''uploads'', ''setdpi.ps'']"
  let ?n1 = "''202122232425262728292a2b2c2d2e2f.pdf''"
  let ?o1 = "[''srv'', ''app'', ''output'', ?n1]"
  let ?w1 = "empty_world\<lparr>draws := 1,
        fs := Map.empty(?k1 \<mapsto> File ''%PDF-1.4 original''),
        trace := [Stored ?p1 ''a.pdf'' ''application/pdf'']\<rparr>"
  let ?w2 = "empty_world\<lparr>draws := 2,
        fs := Map.empty(?k1 \<mapsto> File ''%PDF-1.4 original'', ?k2 \<mapsto> File ''%PDF-1.4 second''),
        trace := [Stored ?p1 ''a.pdf'' ''application/pdf'',
                  Stored ?p2 ''b.pdf$(rm -rf output)'' ''application/pdf'']\<rparr>"
  let ?cmdA = "gs_command ''uploads/setdpi.ps'' ?p1 ''output/202122232425262728292a2b2c2d2e2f.pdf'' 300"
  let ?cmdB = "gs_command ''uploads/setdpi.ps'' ?p2 ''output/303132333435363738393a3b3c3d3e3f.pdf'' 300"
  have cwd: "cwd ?e = ''/srv/app''" and ent: "entropy ?e = (\<lambda>n i. 16 * n + i)"
    and sh: "shell ?e = injected_shell ''/srv/app''"
    by (simp_all add: injected_env_def)
  have pk: "abs_segments ''/srv/app'' psFile = ?pk" by (rule sample_psFile_key)
  have d: "targetDPI_of None = 300" by (simp add: targetDPI_of_def dpi_field_number_def)

  \<comment> \<open>The middleware stages the two files.\<close>
  have tok1: "toString_hex (fst (randomBytes ?e 16 empty_world)) = ''000102030405060708090a0b0c0d0e0f''"
    by (rule sample_token_first) (simp_all add: empty_world_def ent)
  have n1: "storage_filename (fst (randomBytes ?e 16 empty_world)) ?info1
      = ''000102030405060708090a0b0c0d0e0f.pdf''"
    by (simp add: storage_filename_def tok1 extname_sample)
  have tok2: "toString_hex (fst (randomBytes ?e 16 ?w1)) = ''101112131415161718191a1b1c1d1e1f''"
    by (rule sample_token_second) (simp_all add: ent)
  have n2: "storage_filename (fst (randomBytes ?e 16 ?w1)) ?info2
      = ''101112131415161718191a1b1c1d1e1f.pdf$(rm -rf output)''"
    using tok2 by (simp add: storage_filename_def extname_injected)
  have up1: "upload_array ?e [(?info1, ''%PDF-1.4 original''), (?info2, ''%PDF-1.4 second'')] [] empty_world
      = upload_array ?e [(?info2, ''%PDF-1.4 second'')] [?f1] ?w1"
    using upload_accept [of ?info1 "''%PDF-1.4 original''" ?e "[(?info2, ''%PDF-1.4 second'')]" "[]" empty_world]
      n1 resolve_sample
    by (simp add: fileSize_limit_def del: upload_array.simps) (simp add: empty_world_def cwd)
  have up2: "upload_array ?e [(?info2, ''%PDF-1.4 second'')] [?f1] ?w1 = (Inr [?f1, ?f2], ?w2)"
    using upload_accept [of ?info2 "''%PDF-1.4 second''" ?e "[]" "[?f1]" ?w1] n2 resolve_sample
    by (simp add: fileSize_limit_def) (simp add: empty_world_def cwd)
  have up: "upload_array ?e [sample_pdf, injected_pdf] [] empty_world = (Inr [?f1, ?f2], ?w2)"
    using up1 up2 by (simp add: sample_pdf_def injected_pdf_def del: upload_array.simps)

  \<comment> \<open>The first file is converted.\<close>
  have st1: "is_staged_path ?p1" and st2: "is_staged_path ?p2"
    by (simp_all add: is_staged_path_def plain_segment_def)
  have ik1: "abs_segments ''/srv/app'' ?p1 = ?k1"
    using abs_segments_staged [OF st1, of "''/srv/app''"] by (simp add: resolve_sample)
  have ik2: "abs_segments ''/srv/app'' ?p2 = ?k2"
    using abs_segments_staged [OF st2, of "''/srv/app''"] by (simp add: resolve_sample)
  have plain1: "plain_segment ?n1" by (simp add: plain_segment_def)
  have ok1: "abs_segments ''/srv/app'' (''output/'' @ ?n1) = ?o1"
    using abs_segments_output [OF plain1, of "''/srv/app''"] by (simp add: resolve_sample)
  have tok3: "toString_hex (fst (randomBytes ?e 16 ?w2)) = ''202122232425262728292a2b2c2d2e2f''"
    by (rule sample_token_third) (simp_all add: ent)
  have nodirA: "fs ?w2 (abs_segments (cwd ?e) psFile) \<noteq> Some Dir"
    by (simp add: cwd pk)
  let ?fA = "(fs ?w2)(abs_segments (cwd ?e) psFile \<mapsto> File (psContent 300))"
  let ?cA = "gs_command psFile (path ?f1)
      (''output/'' @ toString_hex (fst (randomBytes ?e 16 ?w2)) @ ''.pdf'') 300"
  have wordA: "\<forall>c\<in>set (path ?f1). \<not> is_space c" by (simp add: is_space_def)
  have plainA: "has_infix ''$(rm -rf output)'' ?cA = False"
    using first_command_plain by (simp add: tok3 psFile_eq)
  have runA: "shell ?e ?cA ?fA
      = (None, ?fA(abs_segments ''/srv/app''
           (''output/'' @ toString_hex (fst (randomBytes ?e 16 ?w2)) @ ''.pdf'')
           \<mapsto> File ''%PDF-1.4 converted''))"
    unfolding sh injected_shell_def plainA using sample_shell_gs [OF wordA] by simp
  note A = convert_file_run [OF nodirA runA]
  let ?wA = "snd (convert_file ?e 300 ?f1 ?w2)"
  let ?rA = "\<lparr>originalName = ''a.pdf'', name = ?n1, url = ''/output/'' @ ?n1, dpi = 300\<rparr>"
  have rA: "fst (convert_file ?e 300 ?f1 ?w2) = Inr ?rA"
    using A(1) tok3 by simp
  have evA: "new_events ?w2 ?wA =
      [WriteFile psFile (psContent 300), Spawn ?cmdA,
       Produced ''output/202122232425262728292a2b2c2d2e2f.pdf'' ''%PDF-1.4 converted'',
       Unlink psFile, Unlink ?p1]"
    using A(2) tok3 ok1 by (simp add: cwd psFile_eq)
  have drA: "draws ?wA = 3" using A(4) by simp
  have nodirB: "fs ?wA (abs_segments (cwd ?e) psFile) \<noteq> Some Dir"
    using A(5) by (simp add: cwd pk)

  \<comment> \<open>The command of the second file removes the outputs and fails.\<close>
  have tok4: "toString_hex (fst (randomBytes ?e 16 ?wA)) = ''303132333435363738393a3b3c3d3e3f''"
    by (rule sample_token_fourth) (simp_all add: ent drA)
  let ?fB = "(fs ?wA)(abs_segments (cwd ?e) psFile \<mapsto> File (psContent 300))"
  let ?cB = "gs_command psFile (path ?f2)
      (''output/'' @ toString_hex (fst (randomBytes ?e 16 ?wA)) @ ''.pdf'') 300"
  have injB: "has_infix ''$(rm -rf output)'' ?cB = True"
    using second_command_injected by (simp add: tok4 psFile_eq)
  have runB: "shell ?e ?cB ?fB
      = (Some ''Command failed'', (\<lambda>k. if under_output ''/srv/app'' k then None else ?fB k))"
    unfolding sh injected_shell_def injB by simp
  note B = convert_file_run [OF nodirB runB]
  let ?wB = "snd (convert_file ?e 300 ?f2 ?wA)"
  have rB: "fst (convert_file ?e 300 ?f2 ?wA) = Inl ''Failed to set PDF DPI: Command failed''"
    using B(1) by simp
  have under: "under_output ''/srv/app'' ?o1"
    and under2: "under_output ''/srv/app''
        (abs_segments (cwd ?e) (''output/'' @ toString_hex (fst (randomBytes ?e 16 ?wA)) @ ''.pdf''))"
    using abs_segments_output [OF token_pdf_plain [of ?e ?wA], of "''/srv/app''"]
    by (simp_all add: under_output_def resolve_sample cwd)
  have evB: "new_events ?wA ?wB =
      [WriteFile psFile (psContent 300), Spawn ?cmdB, Unlink psFile, Unlink ?p2]"
    unfolding B(2) using under2 tok4 by (simp add: psFile_eq)
  have gone: "fs ?wB ?o1 = None"
    using B(3) under by (simp add: cwd pk ik2)

  \<comment> \<open>The loop stops at the second file, and the handler answers 500.\<close>
  have loop: "convert_files ?e 300 [?f1, ?f2] [] ?w2
      = (Inl ''Failed to set PDF DPI: Command failed'', ?wB)"
  proof -
    define wA where "wA = ?wA"
    define wB where "wB = snd (convert_file ?e 300 ?f2 wA)"
    have cA: "convert_file ?e 300 ?f1 ?w2 = (Inr ?rA, wA)"
      using rA by (simp add: wA_def prod_eq_iff)
    have cB: "convert_file ?e 300 ?f2 wA = (Inl ''Failed to set PDF DPI: Command failed'', wB)"
      using rB by (simp add: wA_def wB_def prod_eq_iff)
    have "convert_files ?e 300 [?f1, ?f2] [] ?w2
        = (Inl ''Failed to set PDF DPI: Command failed'', wB)"
      by (simp add: cA cB)
    then show ?thesis by (simp add: wA_def wB_def)
  qed
  have h: "convert_handler ?e \<lparr>files = [?f1, ?f2], body_dpi = None\<rparr> ?w2
      = (Response 500 (ErrorDetails ''Internal Server Error'' ''Failed to set PDF DPI: Command failed''), ?wB)"
    using loop d by (simp add: convert_handler_def Let_def)
  have run: "post_convert ?e \<lparr>file_parts = [sample_pdf, injected_pdf], dpi_field = None\<rparr> empty_world
      = (Response 500 (ErrorDetails ''Internal Server Error'' ''Failed to set PDF DPI: Command failed''), ?wB)"
    using h by (simp add: post_convert_def up del: upload_array.simps)
  have tr: "trace ?wB = trace ?w2 @ new_events ?w2 ?wA @ new_events ?wA ?wB"
    using A(6) B(6) by simp
  have sp: "spawned (trace ?wB) = [?cmdA, ?cmdB]"
    unfolding tr evA evB by simp
  have lp: "last_produced ''output/202122232425262728292a2b2c2d2e2f.pdf'' (trace ?wB)
      = Some ''%PDF-1.4 converted''"
    unfolding tr evA evB by simp
  from run sp lp gone show ?thesis by simp
qed

subsection \<open>Files that are not PDF\<close>

text \<open>
  C9. When a file of the request declares a content type other than
  \<^verbatim>\<open>application/pdf\<close>, the whole request is rejected: the middleware passes the error
  of the filter on, the handler does not run, no engine is spawned and no output is
  produced; and the only files that the middleware ever stores are files declared as PDF, so
  the offending file is never staged.
\<close>

theorem non_pdf_rejected:
  assumes "\<exists>p\<in>set (file_parts m). mimetype (fst p) \<noteq> ''application/pdf''"
  shows "(\<exists>message. fst (post_convert e m w) = Response 500 (UnhandledError message))
    \<and> spawned (new_events w (snd (post_convert e m w))) = []
    \<and> (\<forall>q. last_produced q (new_events w (snd (post_convert e m w))) = None)
    \<and> set (stored_types (new_events w (snd (post_convert e m w)))) \<subseteq> {''application/pdf''}"
proof -
  obtain r w' where up: "upload_array e (file_parts m) [] w = (r, w')" by fastforce
  from upload_array_rejects [OF assms, of e "[]" w] up obtain message where r: "r = Inl message"
    by auto
  then have pc: "post_convert e m w = (Response 500 (UnhandledError message), w')"
    using up by (simp add: post_convert_def)
  from upload_array_world [OF up] obtain evs where "trace w' = trace w @ evs"
    and "spawned evs = []" and "\<forall>q. last_produced q evs = None"
    and "set (stored_types evs) \<subseteq> {''application/pdf''}" by blast
  then show ?thesis using pc by (simp add: new_events_def)
qed

theorem non_pdf_rejected_witness:
  "(\<exists>p\<in>set (file_parts \<lparr>file_parts = [sample_pdf, sample_png], dpi_field = None\<rparr>).
       mimetype (fst p) \<noteq> ''application/pdf'')
   \<and> (\<exists>message. fst (post_convert sample_env \<lparr>file_parts = [sample_pdf, sample_png], dpi_field = None\<rparr>
          empty_world) = Response 500 (UnhandledError message))
   \<and> spawned (new_events empty_world
        (snd (post_convert sample_env \<lparr>file_parts = [sample_pdf, sample_png], dpi_field = None\<rparr>
           empty_world))) = []
   \<and> set (stored_types (new_events empty_world
        (snd (post_convert sample_env \<lparr>file_parts = [sample_pdf, sample_png], dpi_field = None\<rparr>
           empty_world)))) \<subseteq> {''application/pdf''}"
proof -
  have h: "\<exists>p\<in>set (file_parts \<lparr>file_parts = [sample_pdf, sample_png], dpi_field = None\<rparr>).
       mimetype (fst p) \<noteq> ''application/pdf''"
    by (simp add: sample_png_def)
  from non_pdf_rejected [OF h, of sample_env empty_world] h show ?thesis by blast
qed

subsection \<open>Retrieval of an output\<close>

lemma get_output_at:
  assumes "isAbsolute (dirname e)" and "plain_segment n"
  shows "get_output e n w =
     (case fs w (resolve_segments (dirname e) @ [''output'', n]) of
        None \<Rightarrow> Response 404 (ErrorBody ''File not found'')
      | Some (File bytes) \<Rightarrow>
          if take 1 n = ''.'' then Response 404 (UnhandledError ''Not Found'')
          else Response 200 (Download bytes)
      | Some Dir \<Rightarrow> Response 404 (UnhandledError ''Not Found''))"
  using path_join_dirname_output [OF assms, of "cwd e"] path_join_dirname_output_last [OF assms]
  by (simp add: get_output_def res_download_def fs_access_def Let_def
      split: option.splits node.splits)

text \<open>
  With the server started in the directory of its script, the request for the name that a
  conversion has returned is answered with the bytes that the command left at the output
  path.
\<close>

lemma output_round_trip_in_script_directory:
  "fst (convert_handler sample_env \<lparr>files = [sample_staged], body_dpi = None\<rparr> sample_world) =
     Response 200 (FilesProcessed ''Files processed successfully''
        [\<lparr>originalName = ''a.pdf'', name = ''000102030405060708090a0b0c0d0e0f.pdf'',
          url = ''/output/000102030405060708090a0b0c0d0e0f.pdf'', dpi = 300\<rparr>])
   \<and> get_output sample_env ''000102030405060708090a0b0c0d0e0f.pdf''
        (snd (convert_handler sample_env \<lparr>files = [sample_staged], body_dpi = None\<rparr> sample_world))
     = Response 200 (Download ''%PDF-1.4 converted'')"
proof -
  let ?req = "\<lparr>files = [sample_staged], body_dpi = None\<rparr>"
  let ?n = "''000102030405060708090a0b0c0d0e0f.pdf''"
  let ?r0 = "\<lparr>originalName = ''a.pdf'', name = ?n, url = ''/output/'' @ ?n, dpi = 300\<rparr>"
  let ?w' = "snd (convert_file sample_env 300 sample_staged sample_world)"
  let ?f1 = "(fs sample_world)(abs_segments (cwd sample_env) psFile \<mapsto> File (psContent 300))"
  have cwd: "cwd sample_env = ''/srv/app''" and dir: "dirname sample_env = ''/srv/app''"
    and sh: "shell sample_env = sample_shell ''/srv/app''"
    by (simp_all add: sample_env_def)
  have d: "targetDPI_of None = 300" by (simp add: targetDPI_of_def dpi_field_number_def)
  have ik: "abs_segments ''/srv/app'' (path sample_staged)
      = [''srv'', ''app'', ''uploads'', ''a0a1a2a3a4a5a6a7a8a9aaabacadaeaf.pdf'']"
    using abs_segments_staged [OF sample_staged_paths, of "''/srv/app''"]
    by (simp add: resolve_sample sample_staged_def)
  have run: "shell sample_env
      (gs_command psFile (path sample_staged)
         (''output/'' @ toString_hex (fst (randomBytes sample_env 16 sample_world)) @ ''.pdf'') 300) ?f1
      = (None, ?f1(abs_segments ''/srv/app''
           (''output/'' @ toString_hex (fst (randomBytes sample_env 16 sample_world)) @ ''.pdf'')
           \<mapsto> File ''%PDF-1.4 converted''))"
    unfolding sh by (rule sample_shell_gs [OF sample_staged_word])
  note A = convert_file_run [OF sample_world_nodir run]
  have r: "fst (convert_file sample_env 300 sample_staged sample_world) = Inr ?r0"
    using A(1) sample_world_token by (simp add: sample_staged_def)
  have h: "convert_handler sample_env ?req sample_world
      = (Response 200 (FilesProcessed ''Files processed successfully'' [?r0]), ?w')"
  proof -
    obtain x y where c: "convert_file sample_env 300 sample_staged sample_world = (x, y)"
      by fastforce
    with r have "x = Inr ?r0" by simp
    with c show ?thesis
      using single_file_handler [of None sample_env sample_staged sample_world] d by simp
  qed
  have "fs ?w' [''srv'', ''app'', ''output'', ?n] = Some (File ''%PDF-1.4 converted'')"
    using A(3) sample_world_token first_output_key
    by (simp add: cwd sample_psFile_key ik)
  then have "get_output sample_env ?n ?w' = Response 200 (Download ''%PDF-1.4 converted'')"
    using get_output_at [of sample_env ?n ?w'] first_name_plain
    by (simp add: dir isAbsolute_def resolve_sample)
  with h show ?thesis by simp
qed

text \<open>
  C8. For every name that a successful conversion returns, the request for that name made
  immediately afterwards is to return the bytes that the command wrote at the output path.
  The handler stores an output under the working directory of the process
  (\<^verbatim>\<open>path.join("output", name)\<close>), as \<^verbatim>\<open>ensureDirectories\<close> creates the directory
  there, and the retrieval route alone reads under the directory of the script
  (\<^verbatim>\<open>path.join(__dirname, "output", name)\<close>). With the server started from \<^verbatim>\<open>/srv\<close>
  and the script in \<^verbatim>\<open>/srv/app\<close>, a conversion succeeds, the output is on the disk at
  \<^verbatim>\<open>/srv/output\<close>, and the request for the returned name is answered 404.
\<close>

theorem output_round_trip_counterexample:
  "convert_handler other_cwd_env \<lparr>files = [sample_staged], body_dpi = None\<rparr> other_cwd_world =
     (Response 200 (FilesProcessed ''Files processed successfully''
        [\<lparr>originalName = ''a.pdf'', name = ''000102030405060708090a0b0c0d0e0f.pdf'',
          url = ''/output/000102030405060708090a0b0c0d0e0f.pdf'', dpi = 300\<rparr>]),
      snd (convert_handler other_cwd_env \<lparr>files = [sample_staged], body_dpi = None\<rparr> other_cwd_world))
   \<and> last_produced (path_join [''output'', ''000102030405060708090a0b0c0d0e0f.pdf''])
        (new_events other_cwd_world
          (snd (convert_handler other_cwd_env \<lparr>files = [sample_staged], body_dpi = None\<rparr> other_cwd_world)))
     = Some ''%PDF-1.4 converted''
   \<and> fs (snd (convert_handler other_cwd_env \<lparr>files = [sample_staged], body_dpi = None\<rparr> other_cwd_world))
        [''srv'', ''output'', ''000102030405060708090a0b0c0d0e0f.pdf'']
     = Some (File ''%PDF-1.4 converted'')
   \<and> get_output other_cwd_env ''000102030405060708090a0b0c0d0e0f.pdf''
        (snd (convert_handler other_cwd_env \<lparr>files = [sample_staged], body_dpi = None\<rparr> other_cwd_world))
     = Response 404 (ErrorBody ''File not found'')"
proof -
  let ?req = "\<lparr>files = [sample_staged], body_dpi = None\<rparr>"
  let ?n = "''000102030405060708090a0b0c0d0e0f.pdf''"
  let ?r0 = "\<lparr>originalName = ''a.pdf'', name = ?n, url = ''/output/'' @ ?n, dpi = 300\<rparr>"
  let ?w' = "snd (convert_file other_cwd_env 300 sample_staged other_cwd_world)"
  let ?f1 = "(fs other_cwd_world)(abs_segments (cwd other_cwd_env) psFile \<mapsto> File (psContent 300))"
  have cwd: "cwd other_cwd_env = ''/srv''" and dir: "dirname other_cwd_env = ''/srv/app''"
    and ent: "entropy other_cwd_env = (\<lambda>n i. 16 * n + i)"
    and sh: "shell other_cwd_env = sample_shell ''/srv''"
    by (simp_all add: other_cwd_env_def)
  have d: "targetDPI_of None = 300" by (simp add: targetDPI_of_def dpi_field_number_def)
  have pk: "abs_segments ''/srv'' psFile = [''srv'', ''uploads'', ''setdpi.ps'']"
    by (simp add: abs_segments_psFile resolve_other)
  have ik: "abs_segments ''/srv'' (path sample_staged)
      = [''srv'', ''uploads'', ''a0a1a2a3a4a5a6a7a8a9aaabacadaeaf.pdf'']"
    using abs_segments_staged [OF sample_staged_paths, of "''/srv''"]
    by (simp add: resolve_other sample_staged_def)
  have ok: "abs_segments ''/srv'' (''output/'' @ ?n) = [''srv'', ''output'', ?n]"
    using abs_segments_output [OF first_name_plain, of "''/srv''"] by (simp add: resolve_other)
  have nodir: "fs other_cwd_world (abs_segments (cwd other_cwd_env) psFile) \<noteq> Some Dir"
    by (simp add: cwd pk other_cwd_world_def)
  have tok: "toString_hex (fst (randomBytes other_cwd_env 16 other_cwd_world))
      = ''000102030405060708090a0b0c0d0e0f''"
    by (rule sample_token_first) (simp_all add: other_cwd_world_def ent)
  have run: "shell other_cwd_env
      (gs_command psFile (path sample_staged)
         (''output/'' @ toString_hex (fst (randomBytes other_cwd_env 16 other_cwd_world)) @ ''.pdf'') 300) ?f1
      = (None, ?f1(abs_segments ''/srv''
           (''output/'' @ toString_hex (fst (randomBytes other_cwd_env 16 other_cwd_world)) @ ''.pdf'')
           \<mapsto> File ''%PDF-1.4 converted''))"
    unfolding sh by (rule sample_shell_gs [OF sample_staged_word])
  note A = convert_file_run [OF nodir run]
  have r: "fst (convert_file other_cwd_env 300 sample_staged other_cwd_world) = Inr ?r0"
    using A(1) tok by (simp add: sample_staged_def)
  have h: "convert_handler other_cwd_env ?req other_cwd_world
      = (Response 200 (FilesProcessed ''Files processed successfully'' [?r0]), ?w')"
  proof -
    obtain x y where c: "convert_file other_cwd_env 300 sample_staged other_cwd_world = (x, y)"
      by fastforce
    with r have "x = Inr ?r0" by simp
    with c show ?thesis
      using single_file_handler [of None other_cwd_env sample_staged other_cwd_world] d by simp
  qed
  have w': "snd (convert_handler other_cwd_env ?req other_cwd_world) = ?w'" using h by simp
  have lp: "last_produced (path_join [''output'', ?n]) (new_events other_cwd_world ?w')
      = Some ''%PDF-1.4 converted''"
    using A(2) tok ok by (simp add: cwd path_join_output [OF first_name_plain])
  have there: "fs ?w' [''srv'', ''output'', ?n] = Some (File ''%PDF-1.4 converted'')"
    using A(3) tok ok by (simp add: cwd pk ik)
  have absent: "fs ?w' [''srv'', ''app'', ''output'', ?n] = None"
    using A(3) tok ok by (simp add: cwd pk ik other_cwd_world_def)
  have "get_output other_cwd_env ?n ?w' = Response 404 (ErrorBody ''File not found'')"
    using get_output_at [of other_cwd_env ?n ?w'] first_name_plain absent
    by (simp add: dir isAbsolute_def resolve_sample)
  with h lp there w' show ?thesis by simp
qed

end
